theory Spec2Isabelle
  imports Main "HOL-Library.Char_ord" "HOL-Library.List_Lexorder"
begin

section \<open>Strings and the built-ins used by \<^verbatim>\<open>homework.py\<close>\<close>

text \<open>
  A Python \<^verbatim>\<open>str\<close> is modelled as a \<^typ>\<open>string\<close>; a \<^typ>\<open>char\<close> stands for the code
  point of the same number, so the model covers the strings over the code points 0..255.
  Python integers are unbounded and modelled as \<^typ>\<open>int\<close>. The conversion \<^verbatim>\<open>int(s)\<close> of a
  string is bounded, however: the interpreter refuses a literal of more than 4300 digits
  (\<^verbatim>\<open>sys.int_info.default_max_str_digits\<close>, the default) with a \<^verbatim>\<open>ValueError\<close>, and so does the
  model.
  Strings are compared by code point, lexicographically, which is the order of
  \<^verbatim>\<open>HOL-Library.Char_ord\<close> and \<^verbatim>\<open>HOL-Library.List_Lexorder\<close>.
\<close>

definition is_digit :: "char \<Rightarrow> bool" where
  \<comment> \<open>\<^verbatim>\<open>\d\<close> of \<^verbatim>\<open>re\<close>, and a decimal digit of \<^verbatim>\<open>int()\<close>: in 0..255 only the ASCII digits\<close>
  "is_digit c \<longleftrightarrow> c \<in> set ''0123456789''"

definition is_alpha :: "char \<Rightarrow> bool" where
  \<comment> \<open>the character class \<^verbatim>\<open>[a-zA-Z]\<close>\<close>
  "is_alpha c \<longleftrightarrow> c \<in> set ''abcdefghijklmnopqrstuvwxyzABCDEFGHIJKLMNOPQRSTUVWXYZ''"

definition is_space :: "char \<Rightarrow> bool" where
  \<comment> \<open>what \<^verbatim>\<open>int()\<close> skips around a literal: TAB, LF, VT, FF, CR, space, NEL (0x85), NBSP (0xA0)\<close>
  "is_space c \<longleftrightarrow> c \<in> set [CHR 0x09, CHR 0x0A, CHR 0x0B, CHR 0x0C, CHR 0x0D, CHR 0x20, CHR 0x85, CHR 0xA0]"

definition lstrip :: "string \<Rightarrow> string \<Rightarrow> string" where
  \<comment> \<open>\<^verbatim>\<open>s.lstrip(chars)\<close>: drops every leading character that occurs in \<^verbatim>\<open>chars\<close>\<close>
  "lstrip chars s = dropWhile (\<lambda>c. c \<in> set chars) s"

fun split_str :: "char \<Rightarrow> string \<Rightarrow> string list" where
  \<comment> \<open>\<^verbatim>\<open>s.split(sep)\<close> for a one-character separator; never the empty list\<close>
  "split_str sep [] = [[]]"
| "split_str sep (c # cs) =
     (if c = sep then [] # split_str sep cs
      else (case split_str sep cs of [] \<Rightarrow> [[c]] | w # ws \<Rightarrow> (c # w) # ws))"

definition split_once :: "char \<Rightarrow> string \<Rightarrow> string \<times> string" where
  \<comment> \<open>\<^verbatim>\<open>s.split(sep, 1)\<close> for a string that contains \<^verbatim>\<open>sep\<close>: the text before the first
      separator and the text after it\<close>
  "split_once sep s = (takeWhile (\<lambda>c. c \<noteq> sep) s, drop 1 (dropWhile (\<lambda>c. c \<noteq> sep) s))"

fun digits_ok :: "string \<Rightarrow> bool" where
  \<comment> \<open>the digit part of an \<^verbatim>\<open>int()\<close> literal: digits, single underscores only between digits\<close>
  "digits_ok [] = False"
| "digits_ok [c] = is_digit c"
| "digits_ok (c # d # cs) =
     (is_digit c \<and> (if d = CHR ''_'' then digits_ok cs else digits_ok (d # cs)))"

definition digits_value :: "string \<Rightarrow> int" where
  "digits_value ds = foldl (\<lambda>a c. 10 * a + (of_char c - 48)) 0 (filter is_digit ds)"

definition int_max_str_digits :: nat where
  \<comment> \<open>\<^verbatim>\<open>sys.int_info.default_max_str_digits\<close>: the most digits that \<^verbatim>\<open>int()\<close> converts\<close>
  "int_max_str_digits = 4300"

definition py_int :: "string \<Rightarrow> int option" where
  \<comment> \<open>\<^verbatim>\<open>int(s)\<close> in base 10; \<open>None\<close> is the \<^verbatim>\<open>ValueError\<close>. Whitespace around the literal is
      skipped, one sign may precede the digits, and a literal with more digits than
      \<open>int_max_str_digits\<close> (underscores not counted, leading zeros counted) is refused.\<close>
  "py_int s =
     (let t = dropWhile is_space s;
          neg = (t \<noteq> [] \<and> hd t = CHR ''-'');
          u = (if t \<noteq> [] \<and> (hd t = CHR ''+'' \<or> hd t = CHR ''-'') then tl t else t);
          body = rev (dropWhile is_space (rev u))
      in if digits_ok body \<and> length (filter is_digit body) \<le> int_max_str_digits
         then Some (if neg then - digits_value body else digits_value body)
         else None)"

function findall_digits :: "string \<Rightarrow> string list" where
  \<comment> \<open>\<^verbatim>\<open>re.findall(r'\d+', s)\<close>: the maximal runs of digits, left to right\<close>
  "findall_digits s =
     (let r = dropWhile (\<lambda>c. \<not> is_digit c) s
      in if r = [] then []
         else takeWhile is_digit r # findall_digits (dropWhile is_digit r))"
  by pat_completeness auto
termination
proof (relation "measure length")
  fix s r :: string
  assume r: "r = dropWhile (\<lambda>c. \<not> is_digit c) s" and ne: "r \<noteq> []"
  from ne obtain c cs where rc: "r = c # cs" by (cases r) auto
  have "is_digit c"
    using r rc dropWhile_eq_Cons_conv [of "\<lambda>c. \<not> is_digit c" s c cs] by simp
  then have "length (dropWhile is_digit r) < length r"
    using rc length_dropWhile_le [of is_digit cs] by simp
  also have "length r \<le> length s"
    using r length_dropWhile_le by simp
  finally show "(dropWhile is_digit r, s) \<in> measure length" by simp
qed simp

declare findall_digits.simps [simp del]

definition digit_group :: "string \<Rightarrow> (string \<times> string) option" where
  \<comment> \<open>\<^verbatim>\<open>\d+\<close> at the start of \<open>s\<close>: the whole run of digits, which must not be empty, and what
      follows it\<close>
  "digit_group s =
     (case takeWhile is_digit s of
        [] \<Rightarrow> None
      | d # ds \<Rightarrow> Some (d # ds, dropWhile is_digit s))"

definition match_letter_suffix :: "string \<Rightarrow> (string \<times> string) option" where
  \<comment> \<open>\<^verbatim>\<open>re.match(r'^(\d+\.\d+\.\d+)([a-zA-Z].*)$', s)\<close>, giving groups 1 and 2.
      Each \<^verbatim>\<open>\d+\<close> has to take its whole run of digits, since a dot or a letter follows it.
      \<^verbatim>\<open>.\<close> matches every character but the line feed, and \<^verbatim>\<open>$\<close> matches at the end of the
      string or before a line feed that ends the string.\<close>
  "match_letter_suffix s =
     (case digit_group s of None \<Rightarrow> None | Some (d1, r1) \<Rightarrow>
      (case r1 of [] \<Rightarrow> None | c1 # s2 \<Rightarrow>
       if c1 = CHR ''.'' then
         (case digit_group s2 of None \<Rightarrow> None | Some (d2, r2) \<Rightarrow>
          (case r2 of [] \<Rightarrow> None | c2 # s3 \<Rightarrow>
           if c2 = CHR ''.'' then
             (case digit_group s3 of None \<Rightarrow> None | Some (d3, r3) \<Rightarrow>
              (case r3 of [] \<Rightarrow> None | l # t \<Rightarrow>
               if is_alpha l then
                 (let body = takeWhile (\<lambda>c. c \<noteq> CHR 0x0A) t;
                      rest = dropWhile (\<lambda>c. c \<noteq> CHR 0x0A) t
                  in if rest = [] \<or> rest = [CHR 0x0A]
                     then Some (d1 @ ''.'' @ d2 @ ''.'' @ d3, l # body)
                     else None)
               else None))
           else None))
       else None))"

section \<open>The class \<^verbatim>\<open>Version\<close>\<close>

datatype error =
    ValueError string \<comment> \<open>\<^verbatim>\<open>raise ValueError(message)\<close> of the code, with its message\<close>
  | IntValueError string \<comment> \<open>the \<^verbatim>\<open>ValueError\<close> that \<^verbatim>\<open>int()\<close> itself raises for this argument\<close>

text \<open>
  A parsed pre-release part is the tuple \<^verbatim>\<open>(True, int(numbers[0]), part)\<close> or
  \<^verbatim>\<open>(False, part, part)\<close>: the flag decides the type of the second component, so the tuple
  is the tagged union below, \<open>Numeric v part\<close> and \<open>Textual part\<close>.
\<close>

datatype part = Numeric int string | Textual string

record Version =
  version :: string
  major :: int
  minor :: int
  patch :: int
  pre_release :: "string option"
  pre_release_parts :: "part list option"

definition split_version :: "string \<Rightarrow> string \<times> string option" where
  "split_version v =
     (let version = lstrip ''v'' v in
      if CHR ''-'' \<in> set version
      then (let (main_version, pre) = split_once CHR ''-'' version in (main_version, Some pre))
      else (case match_letter_suffix version of
              Some (main_version, pre) \<Rightarrow> (main_version, Some pre)
            | None \<Rightarrow> (version, None)))"

function pad_parts :: "string list \<Rightarrow> string list" where
  \<comment> \<open>\<^verbatim>\<open>while len(version_parts) < 3: version_parts.append('0')\<close>\<close>
  "pad_parts version_parts =
     (if length version_parts < 3 then pad_parts (version_parts @ [''0'']) else version_parts)"
  by pat_completeness auto
termination
  by (relation "measure (\<lambda>xs. 3 - length xs)") auto

declare pad_parts.simps [simp del]

definition parse_main_version :: "string \<Rightarrow> error + (int \<times> int \<times> int)" where
  \<comment> \<open>an index out of range and a failing \<^verbatim>\<open>int()\<close> both end in the \<^verbatim>\<open>ValueError\<close> of the
      \<^verbatim>\<open>except\<close> clause\<close>
  "parse_main_version main_version =
     (let invalid = Inl (ValueError (''Invalid version format: '' @ main_version)) in
      case pad_parts (split_str CHR ''.'' main_version) of
        p0 # p1 # p2 # _ \<Rightarrow>
          (case py_int p0 of None \<Rightarrow> invalid | Some ma \<Rightarrow>
           (case py_int p1 of None \<Rightarrow> invalid | Some mi \<Rightarrow>
            (case py_int p2 of None \<Rightarrow> invalid | Some pa \<Rightarrow> Inr (ma, mi, pa))))
      | _ \<Rightarrow> invalid)"

definition parse_part :: "string \<Rightarrow> error + part" where
  \<comment> \<open>the body of the \<^verbatim>\<open>for\<close> loop; there is no \<^verbatim>\<open>try\<close> around \<^verbatim>\<open>int(numbers[0])\<close>, so its
      \<^verbatim>\<open>ValueError\<close> leaves the function and the constructor\<close>
  "parse_part p =
     (case findall_digits p of
        [] \<Rightarrow> Inr (Textual p)
      | n # _ \<Rightarrow> (case py_int n of
                   None \<Rightarrow> Inl (IntValueError n)
                 | Some v \<Rightarrow> Inr (Numeric v p)))"

fun parse_parts_loop :: "string list \<Rightarrow> part list \<Rightarrow> error + part list" where
  "parse_parts_loop [] parsed_parts = Inr parsed_parts"
| "parse_parts_loop (p # ps) parsed_parts =
     (case parse_part p of
        Inl e \<Rightarrow> Inl e
      | Inr x \<Rightarrow> parse_parts_loop ps (parsed_parts @ [x]))"

definition parse_pre_release_parts :: "string option \<Rightarrow> error + part list option" where
  "parse_pre_release_parts pre =
     (case pre of
        None \<Rightarrow> Inr None
      | Some t \<Rightarrow> (case parse_parts_loop (split_str CHR ''.'' t) [] of
                    Inl e \<Rightarrow> Inl e
                  | Inr parsed_parts \<Rightarrow> Inr (Some parsed_parts)))"

definition Version_init :: "string \<Rightarrow> error + Version" where
  \<comment> \<open>\<^verbatim>\<open>Version(version)\<close>, the constructor\<close>
  "Version_init v =
     (let (main_version, pre) = split_version v in
      case parse_main_version main_version of
        Inl e \<Rightarrow> Inl e
      | Inr (ma, mi, pa) \<Rightarrow>
          (case parse_pre_release_parts pre of
             Inl e \<Rightarrow> Inl e
           | Inr parts \<Rightarrow>
               Inr \<lparr>version = v, major = ma, minor = mi, patch = pa,
                    pre_release = pre, pre_release_parts = parts\<rparr>))"

definition has_pre_release :: "Version \<Rightarrow> bool" where
  "has_pre_release a \<longleftrightarrow> pre_release_parts a \<noteq> None"

fun compare_single_pre_release_part :: "part \<Rightarrow> part \<Rightarrow> bool option" where
  \<comment> \<open>\<open>Some True\<close>: self is less; \<open>Some False\<close>: self is greater; \<open>None\<close>: a tie\<close>
  "compare_single_pre_release_part (Numeric v s) (Textual t) = Some True"
| "compare_single_pre_release_part (Textual s) (Numeric w t) = Some False"
| "compare_single_pre_release_part (Numeric v s) (Numeric w t) =
     (if v < w then Some True else if v > w then Some False else None)"
| "compare_single_pre_release_part (Textual s) (Textual t) =
     (if s < t then Some True else if s > t then Some False else None)"

function parts_loop :: "nat \<Rightarrow> part list \<Rightarrow> part list \<Rightarrow> bool" where
  \<comment> \<open>the \<^verbatim>\<open>for i in range(max_parts)\<close> loop of \<^verbatim>\<open>_compare_pre_release_parts\<close>, from index \<open>i\<close>\<close>
  "parts_loop i ps qs =
     (if i < max (length ps) (length qs) then
        (if i \<ge> length ps then True
         else if i \<ge> length qs then False
         else (case compare_single_pre_release_part (ps ! i) (qs ! i) of
                 Some part_comparison \<Rightarrow> part_comparison
               | None \<Rightarrow> parts_loop (Suc i) ps qs))
      else False)"
  by pat_completeness auto
termination
  by (relation "measure (\<lambda>(i, ps, qs). max (length ps) (length qs) - i)") auto

declare parts_loop.simps [simp del]

definition compare_pre_release_parts :: "part list \<Rightarrow> part list \<Rightarrow> bool" where
  "compare_pre_release_parts ps qs = parts_loop 0 ps qs"

definition compare_pre_release :: "Version \<Rightarrow> Version \<Rightarrow> bool" where
  "compare_pre_release a b =
     (if \<not> has_pre_release a \<and> \<not> has_pre_release b then False
      else if \<not> has_pre_release a \<and> has_pre_release b then False
      else if has_pre_release a \<and> \<not> has_pre_release b then True
      else compare_pre_release_parts (the (pre_release_parts a)) (the (pre_release_parts b)))"

definition Version_eq :: "Version \<Rightarrow> Version \<Rightarrow> bool" where
  \<comment> \<open>\<^verbatim>\<open>__eq__\<close> on two instances of the class\<close>
  "Version_eq a b \<longleftrightarrow>
     major a = major b \<and> minor a = minor b \<and> patch a = patch b \<and> pre_release a = pre_release b"

definition Version_lt :: "Version \<Rightarrow> Version \<Rightarrow> bool" where
  \<comment> \<open>\<^verbatim>\<open>__lt__\<close> on two instances of the class\<close>
  "Version_lt a b =
     (if major a \<noteq> major b then major a < major b
      else if minor a \<noteq> minor b then minor a < minor b
      else if patch a \<noteq> patch b then patch a < patch b
      else compare_pre_release a b)"

definition lt_of :: "string \<Rightarrow> string \<Rightarrow> error + bool" where
  \<comment> \<open>the expression \<^verbatim>\<open>Version(s) < Version(t)\<close>\<close>
  "lt_of s t =
     (case Version_init s of Inl e \<Rightarrow> Inl e | Inr a \<Rightarrow>
      (case Version_init t of Inl e \<Rightarrow> Inl e | Inr b \<Rightarrow> Inr (Version_lt a b)))"

definition eq_of :: "string \<Rightarrow> string \<Rightarrow> error + bool" where
  \<comment> \<open>the expression \<^verbatim>\<open>Version(s) == Version(t)\<close>\<close>
  "eq_of s t =
     (case Version_init s of Inl e \<Rightarrow> Inl e | Inr a \<Rightarrow>
      (case Version_init t of Inl e \<Rightarrow> Inl e | Inr b \<Rightarrow> Inr (Version_eq a b)))"

section \<open>Splitting, padding and integer literals\<close>

lemma pad_parts_eq: "pad_parts xs = xs @ replicate (3 - length xs) ''0''"
proof (induction xs rule: pad_parts.induct)
  case (1 xs)
  show ?case
  proof (cases "length xs < 3")
    case True
    then have "3 - length xs = Suc (3 - length (xs @ [''0'']))" by simp
    with True "1.IH" show ?thesis
      by (subst pad_parts.simps) (simp add: replicate_app_Cons_same)
  next
    case False
    then show ?thesis by (subst pad_parts.simps) simp
  qed
qed

lemma split_str_not_Nil: "split_str sep s \<noteq> []"
  by (induction s) (auto split: list.splits)

lemma split_str_no_sep: "sep \<notin> set s \<Longrightarrow> split_str sep s = [s]"
  by (induction s) auto

lemma split_str_append:
  "sep \<notin> set x \<Longrightarrow> split_str sep (x @ sep # r) = x # split_str sep r"
  by (induction x) auto

lemma split_str_chars: "(\<Union>w \<in> set (split_str sep s). set w) \<subseteq> set s"
  by (induction s) (fastforce split: list.splits if_splits)+

lemma split_str_subset: "w \<in> set (split_str sep s) \<Longrightarrow> set w \<subseteq> set s"
  using split_str_chars [of sep s] by blast

lemma digit_not_special:
  assumes "is_digit c"
  shows "\<not> is_space c" and "c \<noteq> CHR ''+''" and "c \<noteq> CHR ''-''" and "c \<noteq> CHR ''.''"
    and "c \<noteq> CHR ''v''" and "c \<noteq> CHR ''_''" and "\<not> is_alpha c"
  using assms by (auto simp: is_digit_def is_space_def is_alpha_def)

lemma alpha_not_special:
  assumes "is_alpha c"
  shows "\<not> is_digit c" and "c \<noteq> CHR ''.''" and "c \<noteq> CHR ''-''" and "c \<noteq> CHR 0x0A"
  using assms by (auto simp: is_digit_def is_alpha_def)

lemma digit_code: "is_digit c \<Longrightarrow> (48::int) \<le> of_char c"
  by (auto simp: is_digit_def)

lemma foldl_digits_nonneg:
  "0 \<le> a \<Longrightarrow> list_all is_digit ds \<Longrightarrow>
   (0::int) \<le> foldl (\<lambda>a c. 10 * a + (of_char c - 48)) a ds"
proof (induction ds arbitrary: a)
  case Nil
  then show ?case by simp
next
  case (Cons d ds)
  from Cons.prems have "(48::int) \<le> of_char d" by (simp add: digit_code)
  with Cons.prems have "(0::int) \<le> 10 * a + (of_char d - 48)" by simp
  with Cons.IH Cons.prems show ?case by simp
qed

lemma digits_value_nonneg: "0 \<le> digits_value ds"
  unfolding digits_value_def
  by (rule foldl_digits_nonneg) (simp_all add: list_all_iff)

lemma digits_ok_all: "ds \<noteq> [] \<Longrightarrow> list_all is_digit ds \<Longrightarrow> digits_ok ds"
proof (induction ds rule: digits_ok.induct)
  case (3 c d cs)
  then show ?case using digit_not_special(6) [of d] by auto
qed simp_all

lemma filter_digits_all: "list_all is_digit ds \<Longrightarrow> filter is_digit ds = ds"
  by (simp add: list_all_iff)

lemma py_int_digits:
  assumes "ds \<noteq> []" and "list_all is_digit ds"
  shows "py_int ds =
     (if length ds \<le> int_max_str_digits then Some (digits_value ds) else None)"
proof -
  from assms obtain c cs where ds: "ds = c # cs" by (cases ds) auto
  with assms have c: "is_digit c" by simp
  have lead: "dropWhile is_space ds = ds"
    using ds c digit_not_special(1) by simp
  have "is_digit (last ds)"
    using assms by (simp add: list_all_iff)
  then have "\<not> is_space (hd (rev ds))"
    using assms(1) digit_not_special(1) by (simp add: hd_rev)
  then have trail: "dropWhile is_space (rev ds) = rev ds"
    using assms(1) by (cases "rev ds") auto
  show ?thesis
    using lead trail ds c digit_not_special(2,3) [OF c] digits_ok_all [OF assms]
      filter_digits_all [OF assms(2)]
    by (simp add: py_int_def)
qed

lemma hd_dropWhile_in: "dropWhile P s \<noteq> [] \<Longrightarrow> hd (dropWhile P s) \<in> set s"
  using set_dropWhileD [of "hd (dropWhile P s)" P s] hd_in_set [of "dropWhile P s"] by blast

lemma hd_dropWhile_neq:
  "c \<notin> set s \<Longrightarrow> \<not> (dropWhile P s \<noteq> [] \<and> hd (dropWhile P s) = c)"
  using hd_dropWhile_in [of P s] by blast

lemma py_int_nonneg:
  assumes "CHR ''-'' \<notin> set s" and "py_int s = Some n"
  shows "0 \<le> n"
proof -
  define t where "t = dropWhile is_space s"
  define u where "u = (if t \<noteq> [] \<and> (hd t = CHR ''+'' \<or> hd t = CHR ''-'') then tl t else t)"
  define b where "b = rev (dropWhile is_space (rev u))"
  have eq: "py_int s =
      (if digits_ok b \<and> length (filter is_digit b) \<le> int_max_str_digits
       then Some (if t \<noteq> [] \<and> hd t = CHR ''-'' then - digits_value b else digits_value b)
       else None)"
    unfolding py_int_def Let_def t_def u_def b_def by (rule refl)
  have nn: "\<not> (t \<noteq> [] \<and> hd t = CHR ''-'')"
    unfolding t_def by (rule hd_dropWhile_neq [OF assms(1)])
  from assms(2) eq nn have "n = digits_value b"
    by (cases "digits_ok b \<and> length (filter is_digit b) \<le> int_max_str_digits") simp_all
  then show ?thesis by (simp only: digits_value_nonneg)
qed

section \<open>The pre-release parser\<close>

lemma findall_digits_head:
  assumes "findall_digits p = n # ns"
  shows "n \<noteq> [] \<and> list_all is_digit n"
proof -
  let ?r = "dropWhile (\<lambda>c. \<not> is_digit c) p"
  from assms have ne: "?r \<noteq> []" and n: "n = takeWhile is_digit ?r"
    by (subst (asm) findall_digits.simps, simp add: Let_def split: if_splits)+
  from ne obtain c cs where rc: "?r = c # cs" by (cases ?r) auto
  then have "is_digit c"
    using dropWhile_eq_Cons_conv [of "\<lambda>c. \<not> is_digit c" p c cs] by simp
  with rc n have "n \<noteq> []" by simp
  moreover have "list_all is_digit n"
    using n by (simp add: list_all_iff) (meson set_takeWhileD)
  ultimately show ?thesis by simp
qed

lemma findall_digits_Nil: "findall_digits [] = []"
  by (subst findall_digits.simps) simp

lemma findall_digits_run:
  assumes "ds \<noteq> []" and "list_all is_digit ds"
  shows "findall_digits ds = [ds]"
proof -
  from assms obtain c cs where ds: "ds = c # cs" and c: "is_digit c" by (cases ds) auto
  have 1: "dropWhile (\<lambda>c. \<not> is_digit c) ds = ds" using ds c by simp
  have 2: "takeWhile is_digit ds = ds" and 3: "dropWhile is_digit ds = []"
    using assms(2) by (simp_all add: list_all_iff)
  show ?thesis
    by (subst findall_digits.simps) (simp only: 1 2 3 Let_def assms(1) if_False findall_digits_Nil)
qed

lemma parse_part_run:
  assumes "ds \<noteq> []" and "list_all is_digit ds"
  shows "parse_part ds =
     (if length ds \<le> int_max_str_digits then Inr (Numeric (digits_value ds) ds)
      else Inl (IntValueError ds))"
  by (simp add: parse_part_def findall_digits_run [OF assms] py_int_digits [OF assms])

lemma parse_pre_release_parts_None_iff:
  "parse_pre_release_parts pre = Inr parts \<Longrightarrow> parts = None \<longleftrightarrow> pre = None"
  by (cases pre) (auto simp: parse_pre_release_parts_def split: sum.splits)

section \<open>The loop over the pre-release parts, as a recursion on the two lists\<close>

lemma parts_loop_Cons:
  "parts_loop (Suc i) (p # ps) (q # qs) = parts_loop i ps qs"
proof (induction i ps qs rule: parts_loop.induct)
  case (1 i ps qs)
  show ?case
  proof (cases "i < length ps \<and> i < length qs
      \<and> compare_single_pre_release_part (ps ! i) (qs ! i) = None")
    case True
    then have "parts_loop (Suc (Suc i)) (p # ps) (q # qs) = parts_loop (Suc i) ps qs"
      using "1.IH" by (simp add: less_max_iff_disj)
    with True show ?thesis
      by (subst parts_loop.simps, subst (2) parts_loop.simps) simp
  next
    case False
    then show ?thesis
      by (subst parts_loop.simps, subst (2) parts_loop.simps)
        (auto split: option.splits)
  qed
qed

lemma cpp_Nil_Nil: "compare_pre_release_parts [] [] = False"
  by (simp add: compare_pre_release_parts_def parts_loop.simps)

lemma cpp_Nil_Cons: "compare_pre_release_parts [] (q # qs) = True"
  by (simp add: compare_pre_release_parts_def parts_loop.simps)

lemma cpp_Cons_Nil: "compare_pre_release_parts (p # ps) [] = False"
  by (simp add: compare_pre_release_parts_def parts_loop.simps)

lemma cpp_Cons_Cons:
  "compare_pre_release_parts (p # ps) (q # qs) =
     (case compare_single_pre_release_part p q of
        Some r \<Rightarrow> r
      | None \<Rightarrow> compare_pre_release_parts ps qs)"
  unfolding compare_pre_release_parts_def
  by (subst parts_loop.simps) (simp add: parts_loop_Cons split: option.splits)

lemmas cpp_simps = cpp_Nil_Nil cpp_Nil_Cons cpp_Cons_Nil cpp_Cons_Cons

lemma single_refl: "compare_single_pre_release_part p p = None"
  by (cases p) simp_all

lemma single_flip_None:
  "compare_single_pre_release_part p q = None \<Longrightarrow> compare_single_pre_release_part q p = None"
  by (cases p; cases q) (auto split: if_splits)

lemma single_flip_True:
  "compare_single_pre_release_part p q = Some True \<Longrightarrow> compare_single_pre_release_part q p = Some False"
  by (cases p; cases q) (auto split: if_splits)

lemma single_flip_False:
  "compare_single_pre_release_part p q = Some False \<Longrightarrow> compare_single_pre_release_part q p = Some True"
  by (cases p; cases q) (auto split: if_splits)

lemma single_trans_TT:
  "compare_single_pre_release_part p q = Some True \<Longrightarrow> compare_single_pre_release_part q r = Some True
   \<Longrightarrow> compare_single_pre_release_part p r = Some True"
  by (cases p; cases q; cases r) (auto split: if_splits)

lemma single_trans_TN:
  "compare_single_pre_release_part p q = Some True \<Longrightarrow> compare_single_pre_release_part q r = None
   \<Longrightarrow> compare_single_pre_release_part p r = Some True"
  by (cases p; cases q; cases r) (auto split: if_splits)

lemma single_trans_NT:
  "compare_single_pre_release_part p q = None \<Longrightarrow> compare_single_pre_release_part q r = Some True
   \<Longrightarrow> compare_single_pre_release_part p r = Some True"
  by (cases p; cases q; cases r) (auto split: if_splits)

lemma single_trans_NN:
  "compare_single_pre_release_part p q = None \<Longrightarrow> compare_single_pre_release_part q r = None
   \<Longrightarrow> compare_single_pre_release_part p r = None"
  by (cases p; cases q; cases r) (auto split: if_splits)

lemma cpp_irrefl: "\<not> compare_pre_release_parts ps ps"
  by (induction ps) (simp_all add: cpp_simps single_refl)

lemma cpp_asym: "compare_pre_release_parts ps qs \<Longrightarrow> \<not> compare_pre_release_parts qs ps"
proof (induction ps arbitrary: qs)
  case Nil
  then show ?case by (cases qs) (simp_all add: cpp_simps)
next
  case (Cons p ps)
  show ?case
  proof (cases qs)
    case Nil
    with Cons.prems show ?thesis by (simp add: cpp_simps)
  next
    case (Cons q qs')
    show ?thesis
    proof (cases "compare_single_pre_release_part p q")
      case None
      with Cons.prems Cons.IH [of qs'] Cons single_flip_None [OF None]
      show ?thesis by (simp add: cpp_simps)
    next
      case (Some r)
      with Cons.prems Cons single_flip_True [of p q]
      show ?thesis by (simp add: cpp_simps)
    qed
  qed
qed

lemma cpp_trans:
  "compare_pre_release_parts ps qs \<Longrightarrow> compare_pre_release_parts qs rs
   \<Longrightarrow> compare_pre_release_parts ps rs"
proof (induction ps arbitrary: qs rs)
  case Nil
  then show ?case by (cases qs; cases rs) (simp_all add: cpp_simps)
next
  case (Cons p ps)
  from Cons.prems obtain q qs' where qs: "qs = q # qs'"
    by (cases qs) (simp_all add: cpp_simps)
  from Cons.prems qs obtain r rs' where rs: "rs = r # rs'"
    by (cases rs) (simp_all add: cpp_simps)
  show ?case
  proof (cases "compare_single_pre_release_part p q")
    case pq: None
    show ?thesis
    proof (cases "compare_single_pre_release_part q r")
      case qr: None
      from Cons.prems qs rs pq qr Cons.IH [of qs' rs'] single_trans_NN [OF pq qr]
      show ?thesis by (simp add: cpp_simps)
    next
      case qr: (Some y)
      from Cons.prems qs rs pq qr single_trans_NT [OF pq]
      show ?thesis by (simp add: cpp_simps)
    qed
  next
    case pq: (Some x)
    with Cons.prems qs have pq': "compare_single_pre_release_part p q = Some True"
      by (simp add: cpp_simps)
    show ?thesis
    proof (cases "compare_single_pre_release_part q r")
      case qr: None
      from qs rs single_trans_TN [OF pq' qr]
      show ?thesis by (simp add: cpp_simps)
    next
      case qr: (Some y)
      from Cons.prems qs rs pq' qr single_trans_TT [OF pq']
      show ?thesis by (simp add: cpp_simps)
    qed
  qed
qed

lemma cpp_tie:
  "(\<not> compare_pre_release_parts ps qs \<and> \<not> compare_pre_release_parts qs ps) \<longleftrightarrow>
   (length ps = length qs \<and>
    (\<forall>i < length ps. compare_single_pre_release_part (ps ! i) (qs ! i) = None))"
proof (induction ps arbitrary: qs)
  case Nil
  then show ?case by (cases qs) (simp_all add: cpp_simps)
next
  case (Cons p ps)
  show ?case
  proof (cases qs)
    case Nil
    then show ?thesis by (simp add: cpp_simps)
  next
    case qs: (Cons q qs')
    show ?thesis
    proof (cases "compare_single_pre_release_part p q")
      case None
      with qs Cons.IH [of qs'] single_flip_None [OF None]
      show ?thesis by (simp add: cpp_simps All_less_Suc2)
    next
      case (Some x)
      with qs single_flip_True [of p q] single_flip_False [of p q]
      show ?thesis by (cases x) (simp_all add: cpp_simps All_less_Suc2)
    qed
  qed
qed

section \<open>The splitter\<close>

lemma digit_group_Some:
  assumes "digit_group s = Some (d, r)"
  shows "s = d @ r" and "d \<noteq> []" and "list_all is_digit d"
proof -
  from assms have d: "d = takeWhile is_digit s" and r: "r = dropWhile is_digit s"
    and ne: "takeWhile is_digit s \<noteq> []"
    by (auto simp: digit_group_def split: list.splits)
  show "s = d @ r" using d r by simp
  show "d \<noteq> []" using d ne by simp
  show "list_all is_digit d"
    using d by (simp add: list_all_iff) (meson set_takeWhileD)
qed

lemma digit_group_run:
  assumes "d \<noteq> []" and "list_all is_digit d" and "r = [] \<or> \<not> is_digit (hd r)"
  shows "digit_group (d @ r) = Some (d, r)"
proof -
  from assms(3) have "takeWhile is_digit r = []" and "dropWhile is_digit r = r"
    by (cases r; auto)+
  with assms(2) have "takeWhile is_digit (d @ r) = d" and "dropWhile is_digit (d @ r) = r"
    by (simp_all add: list_all_iff takeWhile_append2 dropWhile_append2)
  with assms(1) show ?thesis
    by (cases d) (simp_all add: digit_group_def)
qed

lemma match_letter_suffix_Some:
  assumes "match_letter_suffix w = Some (m, p)"
  shows "\<exists>rest. w = m @ p @ rest \<and> (rest = [] \<or> rest = [CHR 0x0A])"
proof -
  from assms obtain d1 r1 where g1: "digit_group w = Some (d1, r1)"
    by (auto simp: match_letter_suffix_def split: option.splits)
  from assms g1 obtain s2 where r1: "r1 = CHR ''.'' # s2"
    by (auto simp: match_letter_suffix_def split: option.splits list.splits if_splits)
  from assms g1 r1 obtain d2 r2 where g2: "digit_group s2 = Some (d2, r2)"
    by (auto simp: match_letter_suffix_def split: option.splits)
  from assms g1 r1 g2 obtain s3 where r2: "r2 = CHR ''.'' # s3"
    by (auto simp: match_letter_suffix_def split: option.splits list.splits if_splits)
  from assms g1 r1 g2 r2 obtain d3 r3 where g3: "digit_group s3 = Some (d3, r3)"
    by (auto simp: match_letter_suffix_def split: option.splits)
  from assms g1 r1 g2 r2 g3 obtain l t where r3: "r3 = l # t"
    by (auto simp: match_letter_suffix_def split: option.splits list.splits if_splits)
  let ?body = "takeWhile (\<lambda>c. c \<noteq> CHR 0x0A) t"
  let ?rest = "dropWhile (\<lambda>c. c \<noteq> CHR 0x0A) t"
  from assms g1 r1 g2 r2 g3 r3
  have m: "m = d1 @ ''.'' @ d2 @ ''.'' @ d3" and p: "p = l # ?body"
    and rest: "?rest = [] \<or> ?rest = [CHR 0x0A]"
    by (auto simp: match_letter_suffix_def Let_def split: if_splits)
  have "w = d1 @ CHR ''.'' # d2 @ CHR ''.'' # d3 @ l # t"
    using digit_group_Some(1) [OF g1] digit_group_Some(1) [OF g2] digit_group_Some(1) [OF g3]
      r1 r2 r3 by simp
  also have "t = ?body @ ?rest" by simp
  finally have "w = m @ p @ ?rest" using m p by simp
  with rest show ?thesis by blast
qed

lemma split_once_no_sep: "sep \<notin> set (fst (split_once sep s))"
  by (auto simp: split_once_def dest: set_takeWhileD)

lemma split_version_core_no_dash: "CHR ''-'' \<notin> set (fst (split_version s))"
proof (cases "CHR ''-'' \<in> set (lstrip ''v'' s)")
  case True
  then show ?thesis
    using split_once_no_sep [of "CHR ''-''" "lstrip ''v'' s"]
    by (simp add: split_version_def Let_def split_beta)
next
  case False
  show ?thesis
  proof (cases "match_letter_suffix (lstrip ''v'' s)")
    case None
    with False show ?thesis by (simp add: split_version_def Let_def)
  next
    case (Some mp)
    obtain m p where mp: "mp = (m, p)" by (cases mp)
    from match_letter_suffix_Some [OF Some [unfolded mp]] False
    have "CHR ''-'' \<notin> set m" by auto
    with False Some mp show ?thesis by (simp add: split_version_def Let_def)
  qed
qed

lemma lstrip_v_replicate: "lstrip ''v'' (replicate n CHR ''v'' @ s) = lstrip ''v'' s"
  by (induction n) (simp_all add: lstrip_def)

lemma split_version_leading_v:
  "split_version (replicate n CHR ''v'' @ s) = split_version s"
  by (simp only: split_version_def lstrip_v_replicate)

lemma lstrip_v_digit: "is_digit c \<Longrightarrow> lstrip ''v'' (c # cs) = c # cs"
  using digit_not_special(5) [of c] by (simp add: lstrip_def)

lemma split_once_append:
  "sep \<notin> set w \<Longrightarrow> split_once sep (w @ sep # T) = (w, T)"
  by (induction w) (auto simp: split_once_def)

lemma split_version_dash:
  assumes "CHR ''-'' \<notin> set w" and "lstrip ''v'' w = w"
  shows "split_version (w @ CHR ''-'' # T) = (w, Some T)"
proof -
  have "lstrip ''v'' (w @ CHR ''-'' # T) = w @ CHR ''-'' # T"
    using assms(2) by (simp add: lstrip_def dropWhile_append3)
  moreover have "split_once CHR ''-'' (w @ CHR ''-'' # T) = (w, T)"
    using assms(1) by (rule split_once_append)
  ultimately show ?thesis by (simp add: split_version_def)
qed

section \<open>The constructor\<close>

lemma Version_init_Inr:
  assumes "Version_init s = Inr a"
  shows "version a = s"
    and "pre_release a = snd (split_version s)"
    and "parse_main_version (fst (split_version s)) = Inr (major a, minor a, patch a)"
    and "parse_pre_release_parts (pre_release a) = Inr (pre_release_parts a)"
  using assms
  by (auto simp: Version_init_def split_beta split: sum.splits)

lemma Version_init_cases:
  "Version_init s =
     (case parse_main_version (fst (split_version s)) of
        Inl e \<Rightarrow> Inl e
      | Inr (ma, mi, pa) \<Rightarrow>
          (case parse_pre_release_parts (snd (split_version s)) of
             Inl e \<Rightarrow> Inl e
           | Inr parts \<Rightarrow>
               Inr \<lparr>version = s, major = ma, minor = mi, patch = pa,
                    pre_release = snd (split_version s), pre_release_parts = parts\<rparr>))"
  by (simp add: Version_init_def split_beta split: sum.splits)

lemma init_parts_None_iff:
  "Version_init s = Inr a \<Longrightarrow> pre_release_parts a = None \<longleftrightarrow> pre_release a = None"
  using parse_pre_release_parts_None_iff [OF Version_init_Inr(4)] .

lemma has_pre_release_init:
  "Version_init s = Inr a \<Longrightarrow> has_pre_release a \<longleftrightarrow> pre_release a \<noteq> None"
  by (simp add: has_pre_release_def init_parts_None_iff)

section \<open>The comparator on versions\<close>

lemma parts_loop_skip_ties:
  assumes "i \<le> length ps" and "i \<le> length qs"
    and "\<forall>j<i. compare_single_pre_release_part (ps ! j) (qs ! j) = None"
  shows "parts_loop 0 ps qs = parts_loop i ps qs"
  using assms
proof (induction i)
  case 0
  show ?case by simp
next
  case (Suc i)
  then have "parts_loop 0 ps qs = parts_loop i ps qs" by simp
  also have "\<dots> = parts_loop (Suc i) ps qs"
    using Suc.prems by (subst parts_loop.simps) (simp add: less_max_iff_disj)
  finally show ?case .
qed

lemma Version_lt_same_triple:
  "major a = major b \<Longrightarrow> minor a = minor b \<Longrightarrow> patch a = patch b \<Longrightarrow>
   Version_lt a b = compare_pre_release a b"
  by (simp add: Version_lt_def)

lemma compare_pre_release_both:
  "pre_release_parts a = Some ps \<Longrightarrow> pre_release_parts b = Some qs \<Longrightarrow>
   compare_pre_release a b = compare_pre_release_parts ps qs"
  by (simp add: compare_pre_release_def has_pre_release_def)

section \<open>The pattern of the letter suffix\<close>

lemma match_three_groups:
  assumes "x \<noteq> []" "list_all is_digit x" "y \<noteq> []" "list_all is_digit y"
    "z \<noteq> []" "list_all is_digit z" "is_alpha l"
  shows "match_letter_suffix (x @ CHR ''.'' # y @ CHR ''.'' # z @ l # t) =
     (if dropWhile (\<lambda>c. c \<noteq> CHR 0x0A) t = [] \<or> dropWhile (\<lambda>c. c \<noteq> CHR 0x0A) t = [CHR 0x0A]
      then Some (x @ ''.'' @ y @ ''.'' @ z, l # takeWhile (\<lambda>c. c \<noteq> CHR 0x0A) t)
      else None)"
proof -
  have nd: "\<not> is_digit CHR ''.''" by (simp add: is_digit_def)
  have g1: "digit_group (x @ CHR ''.'' # y @ CHR ''.'' # z @ l # t) =
      Some (x, CHR ''.'' # y @ CHR ''.'' # z @ l # t)"
    using assms(1,2) nd by (intro digit_group_run) simp_all
  have g2: "digit_group (y @ CHR ''.'' # z @ l # t) = Some (y, CHR ''.'' # z @ l # t)"
    using assms(3,4) nd by (intro digit_group_run) simp_all
  have g3: "digit_group (z @ l # t) = Some (z, l # t)"
    using assms(5,6) alpha_not_special(1) [OF assms(7)] by (intro digit_group_run) simp_all
  show ?thesis
    using g1 g2 g3 assms(7) by (simp add: match_letter_suffix_def Let_def)
qed

lemma match_two_groups:
  assumes "x \<noteq> []" "list_all is_digit x" "y \<noteq> []" "list_all is_digit y" "is_alpha l"
  shows "match_letter_suffix (x @ CHR ''.'' # y @ l # t) = None"
proof -
  have nd: "\<not> is_digit CHR ''.''" by (simp add: is_digit_def)
  have g1: "digit_group (x @ CHR ''.'' # y @ l # t) = Some (x, CHR ''.'' # y @ l # t)"
    using assms(1,2) nd by (intro digit_group_run) simp_all
  have g2: "digit_group (y @ l # t) = Some (y, l # t)"
    using assms(3,4) alpha_not_special(1) [OF assms(5)] by (intro digit_group_run) simp_all
  show ?thesis
    using g1 g2 alpha_not_special(2) [OF assms(5)] by (simp add: match_letter_suffix_def)
qed

lemma match_one_group:
  assumes "x \<noteq> []" "list_all is_digit x" "is_alpha l"
  shows "match_letter_suffix (x @ l # t) = None"
proof -
  have g1: "digit_group (x @ l # t) = Some (x, l # t)"
    using assms(1,2) alpha_not_special(1) [OF assms(3)] by (intro digit_group_run) simp_all
  show ?thesis
    using g1 alpha_not_special(2) [OF assms(3)] by (simp add: match_letter_suffix_def)
qed

lemma match_bare_triple:
  assumes "x \<noteq> []" "list_all is_digit x" "y \<noteq> []" "list_all is_digit y"
    "z \<noteq> []" "list_all is_digit z"
  shows "match_letter_suffix (x @ CHR ''.'' # y @ CHR ''.'' # z) = None"
proof -
  have nd: "\<not> is_digit CHR ''.''" by (simp add: is_digit_def)
  have g1: "digit_group (x @ CHR ''.'' # y @ CHR ''.'' # z) = Some (x, CHR ''.'' # y @ CHR ''.'' # z)"
    using assms(1,2) nd by (intro digit_group_run) simp_all
  have g2: "digit_group (y @ CHR ''.'' # z) = Some (y, CHR ''.'' # z)"
    using assms(3,4) nd by (intro digit_group_run) simp_all
  have g3: "digit_group z = Some (z, [])"
    using assms(5,6) digit_group_run [of z "[]"] by simp
  show ?thesis
    using g1 g2 g3 by (simp add: match_letter_suffix_def)
qed

lemma digits_no_dash: "list_all is_digit x \<Longrightarrow> CHR ''-'' \<notin> set x"
  using digit_not_special(3) by (auto simp: list_all_iff)

lemma digits_no_dot: "list_all is_digit x \<Longrightarrow> CHR ''.'' \<notin> set x"
  using digit_not_special(4) by (auto simp: list_all_iff)

lemma lstrip_v_digits: "x \<noteq> [] \<Longrightarrow> list_all is_digit x \<Longrightarrow> lstrip ''v'' (x @ r) = x @ r"
  by (cases x) (simp_all add: lstrip_v_digit)

lemma split_version_no_dash:
  "CHR ''-'' \<notin> set (lstrip ''v'' s) \<Longrightarrow>
   split_version s =
     (case match_letter_suffix (lstrip ''v'' s) of
        Some (m, p) \<Rightarrow> (m, Some p)
      | None \<Rightarrow> (lstrip ''v'' s, None))"
  by (simp add: split_version_def Let_def)

section \<open>The core parser\<close>

lemma pad_parts_length: "3 \<le> length (pad_parts xs)"
  by (simp add: pad_parts_eq)

lemma pad_parts_no_dash:
  assumes "\<forall>w \<in> set xs. CHR ''-'' \<notin> set w" and "i < length (pad_parts xs)"
  shows "CHR ''-'' \<notin> set (pad_parts xs ! i)"
proof -
  have "pad_parts xs ! i \<in> set (pad_parts xs)" using assms(2) by simp
  then have "pad_parts xs ! i \<in> set xs \<or> pad_parts xs ! i = ''0''"
    by (auto simp: pad_parts_eq)
  with assms(1) show ?thesis by auto
qed

lemma core_entry_no_dash:
  assumes "i < 3"
  shows "CHR ''-'' \<notin> set (pad_parts (split_str CHR ''.'' (fst (split_version s))) ! i)"
proof (rule pad_parts_no_dash)
  show "\<forall>w \<in> set (split_str CHR ''.'' (fst (split_version s))). CHR ''-'' \<notin> set w"
    using split_str_subset split_version_core_no_dash by blast
  show "i < length (pad_parts (split_str CHR ''.'' (fst (split_version s))))"
    using assms pad_parts_length [of "split_str CHR ''.'' (fst (split_version s))"] by simp
qed

lemma parse_main_version_entries:
  "parse_main_version m =
     (let ps = pad_parts (split_str CHR ''.'' m) in
      case (py_int (ps ! 0), py_int (ps ! 1), py_int (ps ! 2)) of
        (Some ma, Some mi, Some pa) \<Rightarrow> Inr (ma, mi, pa)
      | _ \<Rightarrow> Inl (ValueError (''Invalid version format: '' @ m)))"
proof -
  obtain p0 p1 p2 rest where ps: "pad_parts (split_str CHR ''.'' m) = p0 # p1 # p2 # rest"
    using pad_parts_length [of "split_str CHR ''.'' m"]
    by (metis One_nat_def Suc_le_length_iff numeral_3_eq_3)
  show ?thesis
    by (simp add: parse_main_version_def ps Let_def split: option.splits)
qed

lemma parse_main_version_fails_iff:
  "(\<exists>e. parse_main_version m = Inl e) \<longleftrightarrow>
   (\<exists>i<3. py_int (pad_parts (split_str CHR ''.'' m) ! i) = None)"
proof -
  have "(\<exists>i<3. P i) \<longleftrightarrow> P 0 \<or> P 1 \<or> P (2::nat)" for P
    by (auto simp: numeral_3_eq_3 less_Suc_eq numeral_2_eq_2)
  then show ?thesis
    by (auto simp: parse_main_version_entries Let_def split: option.splits)
qed

lemma parse_main_version_error:
  "parse_main_version m = Inl e \<Longrightarrow> e = ValueError (''Invalid version format: '' @ m)"
  by (auto simp: parse_main_version_entries Let_def split: option.splits)

section \<open>The order of versions\<close>

lemma compare_pre_release_iff:
  "compare_pre_release a b \<longleftrightarrow>
     (case pre_release_parts a of
        None \<Rightarrow> False
      | Some ps \<Rightarrow> (case pre_release_parts b of
                     None \<Rightarrow> True
                   | Some qs \<Rightarrow> compare_pre_release_parts ps qs))"
  by (auto simp: compare_pre_release_def has_pre_release_def split: option.splits)

lemma compare_pre_release_irrefl: "\<not> compare_pre_release a a"
  by (simp add: compare_pre_release_iff cpp_irrefl split: option.splits)

lemma compare_pre_release_asym: "compare_pre_release a b \<Longrightarrow> \<not> compare_pre_release b a"
  using cpp_asym by (auto simp: compare_pre_release_iff split: option.splits)

lemma compare_pre_release_trans:
  "compare_pre_release a b \<Longrightarrow> compare_pre_release b c \<Longrightarrow> compare_pre_release a c"
  using cpp_trans by (auto simp: compare_pre_release_iff split: option.splits)

lemma Version_lt_asym: "Version_lt a b \<Longrightarrow> \<not> Version_lt b a"
  using compare_pre_release_asym [of a b]
  by (auto simp: Version_lt_def split: if_splits)

lemma Version_lt_trans: "Version_lt a b \<Longrightarrow> Version_lt b c \<Longrightarrow> Version_lt a c"
proof -
  assume ab: "Version_lt a b" and bc: "Version_lt b c"
  from ab have ab': "major a < major b \<or> major a = major b \<and>
      (minor a < minor b \<or> minor a = minor b \<and>
        (patch a < patch b \<or> patch a = patch b \<and> compare_pre_release a b))"
    by (auto simp: Version_lt_def split: if_splits)
  from bc have bc': "major b < major c \<or> major b = major c \<and>
      (minor b < minor c \<or> minor b = minor c \<and>
        (patch b < patch c \<or> patch b = patch c \<and> compare_pre_release b c))"
    by (auto simp: Version_lt_def split: if_splits)
  from ab' bc' compare_pre_release_trans [of a b c]
  have "major a < major c \<or> major a = major c \<and>
      (minor a < minor c \<or> minor a = minor c \<and>
        (patch a < patch c \<or> patch a = patch c \<and> compare_pre_release a c))"
    by auto
  then show "Version_lt a c"
    by (auto simp: Version_lt_def)
qed

lemma init_same_text_same_parts:
  "Version_init s = Inr a \<Longrightarrow> Version_init t = Inr b \<Longrightarrow> pre_release a = pre_release b
   \<Longrightarrow> pre_release_parts a = pre_release_parts b"
  using Version_init_Inr(4) [of s a] Version_init_Inr(4) [of t b] by simp

lemma Version_eq_not_lt:
  assumes "Version_init s = Inr a" and "Version_init t = Inr b" and "Version_eq a b"
  shows "\<not> Version_lt a b"
proof -
  from assms have "pre_release_parts a = pre_release_parts b"
    by (auto simp: Version_eq_def intro: init_same_text_same_parts)
  then have "\<not> compare_pre_release a b"
    by (simp add: compare_pre_release_iff cpp_irrefl split: option.splits)
  with assms(3) show ?thesis
    by (simp add: Version_eq_def Version_lt_def)
qed

lemma Version_incomparable_iff:
  assumes "Version_init s = Inr a" and "Version_init t = Inr b"
  shows "(\<not> Version_lt a b \<and> \<not> Version_eq a b \<and> \<not> Version_lt b a) \<longleftrightarrow>
     (major a = major b \<and> minor a = minor b \<and> patch a = patch b
      \<and> pre_release a \<noteq> pre_release b
      \<and> (\<exists>ps qs. pre_release_parts a = Some ps \<and> pre_release_parts b = Some qs
            \<and> length ps = length qs
            \<and> (\<forall>i < length ps. compare_single_pre_release_part (ps ! i) (qs ! i) = None)))"
proof (cases "major a = major b \<and> minor a = minor b \<and> patch a = patch b")
  case False
  then show ?thesis by (auto simp: Version_lt_def)
next
  case True
  note pa = init_parts_None_iff [OF assms(1)] and pb = init_parts_None_iff [OF assms(2)]
  show ?thesis
  proof (cases "pre_release a")
    case None
    with True pa pb show ?thesis
      by (cases "pre_release b")
        (auto simp: Version_lt_def Version_eq_def compare_pre_release_iff split: option.splits)
  next
    case sa: (Some u)
    show ?thesis
    proof (cases "pre_release b")
      case None
      with True sa pa pb show ?thesis
        by (auto simp: Version_lt_def Version_eq_def compare_pre_release_iff split: option.splits)
    next
      case sb: (Some w)
      from sa sb pa pb obtain ps qs
        where ps: "pre_release_parts a = Some ps" and qs: "pre_release_parts b = Some qs"
        by auto
      show ?thesis
        using True sa sb ps qs cpp_tie [of ps qs]
        by (auto simp: Version_lt_def Version_eq_def compare_pre_release_iff)
    qed
  qed
qed


lemma Version_eq_sym: "Version_eq a b \<Longrightarrow> Version_eq b a"
  by (auto simp: Version_eq_def)

lemma parse_main_version_triple:
  assumes "x \<noteq> []" "list_all is_digit x" "y \<noteq> []" "list_all is_digit y"
    "z \<noteq> []" "list_all is_digit z"
    and "length x \<le> int_max_str_digits" "length y \<le> int_max_str_digits"
      "length z \<le> int_max_str_digits"
  shows "parse_main_version (x @ CHR ''.'' # y @ CHR ''.'' # z) =
     Inr (digits_value x, digits_value y, digits_value z)"
proof -
  have "split_str CHR ''.'' (x @ CHR ''.'' # y @ CHR ''.'' # z) = [x, y, z]"
    using digits_no_dot [OF assms(2)] digits_no_dot [OF assms(4)] digits_no_dot [OF assms(6)]
    by (simp add: split_str_append split_str_no_sep)
  moreover have "pad_parts [x, y, z] = [x, y, z]"
    by (simp add: pad_parts_eq)
  ultimately show ?thesis
    using assms by (simp add: parse_main_version_def py_int_digits)
qed

lemma pre_release_less_than_release:
  assumes "Version_init s = Inr a" and "Version_init t = Inr b"
    and "major a = major b" and "minor a = minor b" and "patch a = patch b"
    and "pre_release a \<noteq> None" and "pre_release b = None"
  shows "Version_lt a b \<and> \<not> Version_lt b a"
proof -
  from assms(6,7) init_parts_None_iff [OF assms(1)] init_parts_None_iff [OF assms(2)]
  have "pre_release_parts a \<noteq> None" and "pre_release_parts b = None" by auto
  then have "compare_pre_release a b"
    by (auto simp: compare_pre_release_iff)
  with assms(3-5) have "Version_lt a b" by (simp add: Version_lt_def)
  then show ?thesis using Version_lt_asym by blast
qed

section \<open>The limit on the digits of a pre-release part\<close>

lemma digits_replicate: "is_digit c \<Longrightarrow> list_all is_digit (replicate n c)"
  by (simp add: list_all_iff)

lemma split_version_dash_run:
  assumes "split_version w = (w, None)" and "CHR ''-'' \<notin> set w" and "lstrip ''v'' w = w"
  shows "split_version (w @ CHR ''-'' # T) = (w, Some T)"
  using assms(2,3) by (rule split_version_dash)

lemma Version_init_digit_tail:
  assumes core: "parse_main_version w = Inr (ma, mi, pa)"
    and w: "CHR ''-'' \<notin> set w" "lstrip ''v'' w = w"
    and ds: "ds \<noteq> []" "list_all is_digit ds"
  shows "Version_init (w @ CHR ''-'' # ds) =
     (if length ds \<le> int_max_str_digits
      then Inr \<lparr>version = w @ CHR ''-'' # ds, major = ma, minor = mi, patch = pa,
                pre_release = Some ds,
                pre_release_parts = Some [Numeric (digits_value ds) ds]\<rparr>
      else Inl (IntValueError ds))"
proof -
  have sp: "split_version (w @ CHR ''-'' # ds) = (w, Some ds)"
    using w by (rule split_version_dash)
  have "split_str CHR ''.'' ds = [ds]"
    using digits_no_dot [OF ds(2)] by (rule split_str_no_sep)
  then have "parse_pre_release_parts (Some ds) =
     (if length ds \<le> int_max_str_digits then Inr (Some [Numeric (digits_value ds) ds])
      else Inl (IntValueError ds))"
    by (simp add: parse_pre_release_parts_def parse_part_run [OF ds])
  with sp core show ?thesis
    by (simp add: Version_init_cases)
qed

section \<open>Cores of fewer than three entries\<close>

lemma py_int_zero: "py_int ''0'' = Some 0"
  by code_simp

lemma split_str_snoc_field:
  "sep \<notin> set w \<Longrightarrow> split_str sep (s @ sep # w) = split_str sep s @ [w]"
proof (induction s)
  case Nil
  then show ?case by (simp add: split_str_no_sep)
next
  case (Cons c s)
  then show ?case
    by (cases "split_str sep s") (auto simp: split_str_not_Nil)
qed

lemma parse_main_version_one:
  assumes "CHR ''.'' \<notin> set x"
  shows "parse_main_version x =
     (case py_int x of
        None \<Rightarrow> Inl (ValueError (''Invalid version format: '' @ x))
      | Some a \<Rightarrow> Inr (a, 0, 0))"
proof -
  have "pad_parts (split_str CHR ''.'' x) = [x, ''0'', ''0'']"
    using assms by (simp add: split_str_no_sep pad_parts_eq eval_nat_numeral)
  then show ?thesis
    by (simp add: parse_main_version_def py_int_zero split: option.splits)
qed

lemma parse_main_version_two:
  assumes "CHR ''.'' \<notin> set x" and "CHR ''.'' \<notin> set y"
  shows "parse_main_version (x @ CHR ''.'' # y) =
     (case py_int x of
        None \<Rightarrow> Inl (ValueError (''Invalid version format: '' @ x @ CHR ''.'' # y))
      | Some a \<Rightarrow>
          (case py_int y of
             None \<Rightarrow> Inl (ValueError (''Invalid version format: '' @ x @ CHR ''.'' # y))
           | Some b \<Rightarrow> Inr (a, b, 0)))"
proof -
  have "pad_parts (split_str CHR ''.'' (x @ CHR ''.'' # y)) = [x, y, ''0'']"
    using assms by (simp add: split_str_append split_str_no_sep pad_parts_eq eval_nat_numeral)
  then show ?thesis
    by (simp add: parse_main_version_def py_int_zero split: option.splits)
qed

lemma parse_main_version_three:
  assumes "CHR ''.'' \<notin> set x" and "CHR ''.'' \<notin> set y" and "CHR ''.'' \<notin> set z"
  shows "parse_main_version (x @ CHR ''.'' # y @ CHR ''.'' # z) =
     (case py_int x of
        None \<Rightarrow> Inl (ValueError (''Invalid version format: '' @ x @ CHR ''.'' # y @ CHR ''.'' # z))
      | Some a \<Rightarrow>
          (case py_int y of
             None \<Rightarrow> Inl (ValueError (''Invalid version format: '' @ x @ CHR ''.'' # y @ CHR ''.'' # z))
           | Some b \<Rightarrow>
               (case py_int z of
                  None \<Rightarrow> Inl (ValueError (''Invalid version format: '' @ x @ CHR ''.'' # y @ CHR ''.'' # z))
                | Some c \<Rightarrow> Inr (a, b, c))))"
proof -
  have "pad_parts (split_str CHR ''.'' (x @ CHR ''.'' # y @ CHR ''.'' # z)) = [x, y, z]"
    using assms by (simp add: split_str_append split_str_no_sep pad_parts_eq)
  then show ?thesis
    by (simp add: parse_main_version_def split: option.splits)
qed

section \<open>The claims\<close>

text \<open>
  \<^bold>\<open>C1\<close>, amended. For constructed versions \<open>a\<close> and \<open>b\<close>, at most one of \<open>a < b\<close>, \<open>a == b\<close>,
  \<open>b < a\<close> holds. None of them holds exactly when the two triples agree, the raw pre-release
  texts differ, and the parsed parts have the same length and tie at every position. The
  strict order is transitive and antisymmetric, and \<open>a == b\<close> implies that neither version is
  less than the other.
\<close>
theorem version_order:
  assumes "Version_init s = Inr a" and "Version_init t = Inr b" and "Version_init u = Inr c"
  shows "\<not> (Version_lt a b \<and> Version_eq a b) \<and> \<not> (Version_lt a b \<and> Version_lt b a)
     \<and> \<not> (Version_eq a b \<and> Version_lt b a)
   \<and> ((\<not> Version_lt a b \<and> \<not> Version_eq a b \<and> \<not> Version_lt b a) \<longleftrightarrow>
        (major a = major b \<and> minor a = minor b \<and> patch a = patch b
         \<and> pre_release a \<noteq> pre_release b
         \<and> (\<exists>ps qs. pre_release_parts a = Some ps \<and> pre_release_parts b = Some qs
               \<and> length ps = length qs
               \<and> (\<forall>i < length ps.
                     compare_single_pre_release_part (ps ! i) (qs ! i) = None))))
   \<and> (Version_lt a b \<and> Version_lt b c \<longrightarrow> Version_lt a c)
   \<and> (Version_eq a b \<longrightarrow> \<not> Version_lt a b \<and> \<not> Version_lt b a)"
proof -
  have 1: "Version_eq a b \<longrightarrow> \<not> Version_lt a b \<and> \<not> Version_lt b a"
    using Version_eq_not_lt [OF assms(1,2)] Version_eq_not_lt [OF assms(2,1)] Version_eq_sym
    by blast
  have 2: "\<not> (Version_lt a b \<and> Version_lt b a)"
    using Version_lt_asym by blast
  have 3: "Version_lt a b \<and> Version_lt b c \<longrightarrow> Version_lt a c"
    using Version_lt_trans by blast
  note 4 = Version_incomparable_iff [OF assms(1,2)]
  from 1 2 3 show ?thesis
    by (simp only: 4 simp_thms) blast
qed

text \<open>
  C1 as stated fails: \<^verbatim>\<open>Version("1.0.0-1")\<close> and \<^verbatim>\<open>Version("1.0.0-01")\<close> are both constructed,
  their numeric parts of value 1 tie, and their raw texts differ, so none of \<open><\<close>, \<open>==\<close>, \<open>>\<close>
  holds between them.
\<close>
theorem total_order_counterexample:
  "lt_of ''1.0.0-1'' ''1.0.0-01'' = Inr False
   \<and> eq_of ''1.0.0-1'' ''1.0.0-01'' = Inr False
   \<and> lt_of ''1.0.0-01'' ''1.0.0-1'' = Inr False"
  by code_simp

text \<open>
  The amended C1 for \<^verbatim>\<open>1.0.0-alpha\<close>, \<^verbatim>\<open>1.0.0-beta.2\<close> and \<^verbatim>\<open>1.0.0\<close>: transitivity gives
  the order of the first and the last.
\<close>
theorem version_order_witness:
  "Version_lt
     \<lparr>version = ''1.0.0-alpha'', major = 1, minor = 0, patch = 0, pre_release = Some ''alpha'',
      pre_release_parts = Some [Textual ''alpha'']\<rparr>
     \<lparr>version = ''1.0.0'', major = 1, minor = 0, patch = 0, pre_release = None,
      pre_release_parts = None\<rparr>"
proof -
  let ?a = "\<lparr>version = ''1.0.0-alpha'', major = 1, minor = 0, patch = 0,
      pre_release = Some ''alpha'', pre_release_parts = Some [Textual ''alpha'']\<rparr>"
  let ?b = "\<lparr>version = ''1.0.0-beta.2'', major = 1, minor = 0, patch = 0,
      pre_release = Some ''beta.2'',
      pre_release_parts = Some [Textual ''beta'', Numeric 2 ''2'']\<rparr>"
  let ?c = "\<lparr>version = ''1.0.0'', major = 1, minor = 0, patch = 0, pre_release = None,
      pre_release_parts = None\<rparr>"
  have a: "Version_init ''1.0.0-alpha'' = Inr ?a" by code_simp
  have b: "Version_init ''1.0.0-beta.2'' = Inr ?b" by code_simp
  have c: "Version_init ''1.0.0'' = Inr ?c" by code_simp
  have ab: "Version_lt ?a ?b" by code_simp
  have bc: "Version_lt ?b ?c" by code_simp
  from version_order [OF a b c] ab bc show ?thesis by blast
qed

text \<open>
  \<^bold>\<open>C2\<close>, at an input where the code departs from it. \<^verbatim>\<open>1.0.0\<close> with a tail of 4301 nines
  is the text \<^verbatim>\<open>X.Y.Z-T\<close> of the claim, but \<^verbatim>\<open>int()\<close> refuses the 4301 digits of the tail, nothing
  catches its \<^verbatim>\<open>ValueError\<close>, and so \<^verbatim>\<open>Version("1.0.0-9...9") < Version("1.0.0")\<close> raises instead of
  being true. With 4300 nines the comparison is true, as the claim says.
\<close>
theorem long_pre_release_not_less:
  "lt_of (''1.0.0-'' @ replicate 4301 CHR ''9'') ''1.0.0'' =
     Inl (IntValueError (replicate 4301 CHR ''9''))
   \<and> lt_of (''1.0.0-'' @ replicate 4300 CHR ''9'') ''1.0.0'' = Inr True
   \<and> Version_init ''1.0.0'' =
       Inr \<lparr>version = ''1.0.0'', major = 1, minor = 0, patch = 0,
            pre_release = None, pre_release_parts = None\<rparr>"
proof -
  have nine: "is_digit CHR ''9''" by (simp add: is_digit_def)
  have core: "parse_main_version ''1.0.0'' = Inr (1, 0, 0)" by code_simp
  have w: "CHR ''-'' \<notin> set ''1.0.0''" "lstrip ''v'' ''1.0.0'' = ''1.0.0''"
    by (simp_all add: lstrip_def)
  have rel: "Version_init ''1.0.0'' =
       Inr \<lparr>version = ''1.0.0'', major = 1, minor = 0, patch = 0,
            pre_release = None, pre_release_parts = None\<rparr>" by code_simp
  have long: "Version_init (''1.0.0-'' @ replicate 4301 CHR ''9'') =
      Inl (IntValueError (replicate 4301 CHR ''9''))"
    using Version_init_digit_tail [OF core w _ digits_replicate [OF nine], of 4301]
    by (simp add: int_max_str_digits_def)
  have short: "Version_init (''1.0.0-'' @ replicate 4300 CHR ''9'') =
      Inr \<lparr>version = ''1.0.0-'' @ replicate 4300 CHR ''9'', major = 1, minor = 0, patch = 0,
           pre_release = Some (replicate 4300 CHR ''9''),
           pre_release_parts =
             Some [Numeric (digits_value (replicate 4300 CHR ''9'')) (replicate 4300 CHR ''9'')]\<rparr>"
    using Version_init_digit_tail [OF core w _ digits_replicate [OF nine], of 4300]
    by (simp add: int_max_str_digits_def)
  have 1: "lt_of (''1.0.0-'' @ replicate 4301 CHR ''9'') ''1.0.0'' =
      Inl (IntValueError (replicate 4301 CHR ''9''))"
    by (simp only: lt_of_def long sum.case)
  have 2: "lt_of (''1.0.0-'' @ replicate 4300 CHR ''9'') ''1.0.0'' = Inr True"
    by (simp only: lt_of_def short rel sum.case)
      (simp add: Version_lt_def compare_pre_release_iff)
  from 1 2 rel show ?thesis by (intro conjI)
qed

text \<open>The comparison at the tail of 4301 nines is not true.\<close>
theorem long_pre_release_not_less_witness:
  "lt_of (''1.0.0-'' @ replicate 4301 CHR ''9'') ''1.0.0'' \<noteq> Inr True"
  using long_pre_release_not_less by simp

text \<open>
  \<^bold>\<open>C3\<close>. If the parts of two pre-release tails tie at all positions before \<open>i\<close>, and at
  position \<open>i\<close> one part is numeric and the other textual, then the sequence with the numeric
  part is strictly less, for every value and every text; and so is its version, when the two
  versions have the same triple. In particular \<^verbatim>\<open>Version("1.0.0-1") < Version("1.0.0-alpha")\<close>.
\<close>
theorem numeric_before_textual:
  "(i < length ps \<and> i < length qs
      \<and> (\<forall>j<i. compare_single_pre_release_part (ps ! j) (qs ! j) = None)
      \<and> ps ! i = Numeric v x \<and> qs ! i = Textual y
      \<longrightarrow> compare_pre_release_parts ps qs \<and> \<not> compare_pre_release_parts qs ps
        \<and> (major a = major b \<and> minor a = minor b \<and> patch a = patch b
             \<and> pre_release_parts a = Some ps \<and> pre_release_parts b = Some qs
             \<longrightarrow> Version_lt a b \<and> \<not> Version_lt b a))
   \<and> lt_of ''1.0.0-1'' ''1.0.0-alpha'' = Inr True
   \<and> lt_of ''1.0.0-alpha'' ''1.0.0-1'' = Inr False"
proof -
  have "compare_pre_release_parts ps qs \<and> \<not> compare_pre_release_parts qs ps"
    if i: "i < length ps" "i < length qs"
      and t: "\<forall>j<i. compare_single_pre_release_part (ps ! j) (qs ! j) = None"
      and n: "ps ! i = Numeric v x" "qs ! i = Textual y"
  proof -
    have "parts_loop 0 ps qs = parts_loop i ps qs"
      using i t by (intro parts_loop_skip_ties) simp_all
    also have "\<dots> = True"
      using i n by (subst parts_loop.simps) (simp add: less_max_iff_disj)
    finally have "compare_pre_release_parts ps qs"
      by (simp add: compare_pre_release_parts_def)
    then show ?thesis using cpp_asym by blast
  qed
  moreover have "lt_of ''1.0.0-1'' ''1.0.0-alpha'' = Inr True" by code_simp
  moreover have "lt_of ''1.0.0-alpha'' ''1.0.0-1'' = Inr False" by code_simp
  ultimately show ?thesis
    by (auto simp: Version_lt_same_triple compare_pre_release_both)
qed

text \<open>C3 for the parts of \<^verbatim>\<open>rc.1\<close> and \<^verbatim>\<open>rc.x\<close>, which differ at position 1.\<close>
theorem numeric_before_textual_witness:
  "Version_lt
     \<lparr>version = ''1.0.0-rc.1'', major = 1, minor = 0, patch = 0, pre_release = Some ''rc.1'',
      pre_release_parts = Some [Textual ''rc'', Numeric 1 ''1'']\<rparr>
     \<lparr>version = ''1.0.0-rc.x'', major = 1, minor = 0, patch = 0, pre_release = Some ''rc.x'',
      pre_release_parts = Some [Textual ''rc'', Textual ''x'']\<rparr>"
  using numeric_before_textual [where i = 1
      and ps = "[Textual ''rc'', Numeric 1 ''1'']" and qs = "[Textual ''rc'', Textual ''x'']"
      and v = 1 and x = "''1''" and y = "''x''"
      and a = "\<lparr>version = ''1.0.0-rc.1'', major = 1, minor = 0, patch = 0,
        pre_release = Some ''rc.1'', pre_release_parts = Some [Textual ''rc'', Numeric 1 ''1'']\<rparr>"
      and b = "\<lparr>version = ''1.0.0-rc.x'', major = 1, minor = 0, patch = 0,
        pre_release = Some ''rc.x'', pre_release_parts = Some [Textual ''rc'', Textual ''x'']\<rparr>"]
  by simp

text \<open>
  \<^bold>\<open>C4\<close>. Two versions are equal if and only if their major, minor and patch numbers agree
  and their raw pre-release texts agree as optional strings. The parsed parts play no role:
  replacing them changes nothing. For constructed versions the raw pre-release text is the
  tail that the splitter returned. In particular
  \<^verbatim>\<open>Version("1.0.0-alpha") == Version("1.0.0-alpha")\<close> and
  \<^verbatim>\<open>Version("1.0.0-rc.1") != Version("1.0.0")\<close>.
\<close>
theorem equality_on_raw_text:
  "(Version_eq a b \<longleftrightarrow>
      major a = major b \<and> minor a = minor b \<and> patch a = patch b
      \<and> pre_release a = pre_release b)
   \<and> Version_eq (a\<lparr>pre_release_parts := ps\<rparr>) (b\<lparr>pre_release_parts := qs\<rparr>) = Version_eq a b
   \<and> (Version_init s = Inr a' \<and> Version_init t = Inr b' \<longrightarrow>
        (Version_eq a' b' \<longleftrightarrow>
           major a' = major b' \<and> minor a' = minor b' \<and> patch a' = patch b'
           \<and> snd (split_version s) = snd (split_version t)))
   \<and> eq_of ''1.0.0-alpha'' ''1.0.0-alpha'' = Inr True
   \<and> eq_of ''1.0.0-rc.1'' ''1.0.0'' = Inr False
   \<and> eq_of ''1.0.0'' ''1.0.0-rc.1'' = Inr False"
proof -
  have a: "eq_of ''1.0.0-alpha'' ''1.0.0-alpha'' = Inr True" by code_simp
  have b: "eq_of ''1.0.0-rc.1'' ''1.0.0'' = Inr False" by code_simp
  have c: "eq_of ''1.0.0'' ''1.0.0-rc.1'' = Inr False" by code_simp
  have d: "Version_init s = Inr a' \<and> Version_init t = Inr b' \<longrightarrow>
        (Version_eq a' b' \<longleftrightarrow>
           major a' = major b' \<and> minor a' = minor b' \<and> patch a' = patch b'
           \<and> snd (split_version s) = snd (split_version t))"
    by (auto simp: Version_eq_def Version_init_Inr(2))
  from a b c d show ?thesis by (simp add: Version_eq_def)
qed

text \<open>C4 for the constructed versions of \<^verbatim>\<open>1.0.0-alpha\<close> and \<^verbatim>\<open>v1.0-alpha\<close>.\<close>
theorem equality_on_raw_text_witness:
  "Version_eq
     \<lparr>version = ''1.0.0-alpha'', major = 1, minor = 0, patch = 0, pre_release = Some ''alpha'',
      pre_release_parts = Some [Textual ''alpha'']\<rparr>
     \<lparr>version = ''v1.0-alpha'', major = 1, minor = 0, patch = 0, pre_release = Some ''alpha'',
      pre_release_parts = Some [Textual ''alpha'']\<rparr>"
proof -
  have s: "Version_init ''1.0.0-alpha'' =
      Inr \<lparr>version = ''1.0.0-alpha'', major = 1, minor = 0, patch = 0,
           pre_release = Some ''alpha'', pre_release_parts = Some [Textual ''alpha'']\<rparr>"
    by code_simp
  have t: "Version_init ''v1.0-alpha'' =
      Inr \<lparr>version = ''v1.0-alpha'', major = 1, minor = 0, patch = 0,
           pre_release = Some ''alpha'', pre_release_parts = Some [Textual ''alpha'']\<rparr>"
    by code_simp
  have "snd (split_version ''1.0.0-alpha'') = snd (split_version ''v1.0-alpha'')"
    by code_simp
  with s t show ?thesis
    using equality_on_raw_text [of _ _ _ _ "''1.0.0-alpha''" _ "''v1.0-alpha''" _]
    by simp
qed

text \<open>
  \<^bold>\<open>C5\<close>. Two numeric parts are compared by their integer values, whatever their texts are:
  the lesser value decides at once, and equal values send the loop on to the next position.
  In particular \<^verbatim>\<open>Version("1.0.0-2") < Version("1.0.0-10")\<close>, although \<^verbatim>\<open>"10" < "2"\<close> as strings.
\<close>
theorem numeric_parts_by_value:
  "compare_single_pre_release_part (Numeric v s) (Numeric w t) =
     (if v < w then Some True else if w < v then Some False else None)
   \<and> (i < length ps \<and> i < length qs \<and> ps ! i = Numeric v s \<and> qs ! i = Numeric w t \<longrightarrow>
        parts_loop i ps qs =
          (if v < w then True else if w < v then False else parts_loop (Suc i) ps qs))
   \<and> compare_pre_release_parts (Numeric v s # ps') (Numeric v t # qs') =
        compare_pre_release_parts ps' qs'
   \<and> lt_of ''1.0.0-2'' ''1.0.0-10'' = Inr True
   \<and> lt_of ''1.0.0-10'' ''1.0.0-2'' = Inr False
   \<and> ''10'' < ''2''"
proof -
  have a: "compare_single_pre_release_part (Numeric v s) (Numeric w t) =
     (if v < w then Some True else if w < v then Some False else None)"
    by simp
  have b: "i < length ps \<and> i < length qs \<and> ps ! i = Numeric v s \<and> qs ! i = Numeric w t \<longrightarrow>
        parts_loop i ps qs =
          (if v < w then True else if w < v then False else parts_loop (Suc i) ps qs)"
    by (subst parts_loop.simps) (simp add: less_max_iff_disj)
  have c: "compare_pre_release_parts (Numeric v s # ps') (Numeric v t # qs') =
        compare_pre_release_parts ps' qs'"
    by (simp add: cpp_Cons_Cons)
  have d: "lt_of ''1.0.0-2'' ''1.0.0-10'' = Inr True" by code_simp
  have e: "lt_of ''1.0.0-10'' ''1.0.0-2'' = Inr False" by code_simp
  have f: "''10'' < ''2''" by code_simp
  from a b c d e f show ?thesis by (intro conjI)
qed

text \<open>
  C5 at position 1 of two sequences: the values 2 and 10 decide, and the parts of value 7
  with the texts \<^verbatim>\<open>"7"\<close> and \<^verbatim>\<open>"07"\<close> tie, so that the loop goes on at position 2.
\<close>
theorem numeric_parts_by_value_witness:
  "parts_loop 1 [Textual ''rc'', Numeric 2 ''2''] [Textual ''rc'', Numeric 10 ''010''] = True
   \<and> parts_loop 1 [Textual ''rc'', Numeric 7 ''7'', Textual ''a'']
        [Textual ''rc'', Numeric 7 ''07'', Textual ''b''] =
      parts_loop 2 [Textual ''rc'', Numeric 7 ''7'', Textual ''a'']
        [Textual ''rc'', Numeric 7 ''07'', Textual ''b'']"
  using numeric_parts_by_value [of 2 "''2''" 10 "''010''" 1 "[Textual ''rc'', Numeric 2 ''2'']"
      "[Textual ''rc'', Numeric 10 ''010'']"]
    numeric_parts_by_value [of 7 "''7''" 7 "''07''" 1 "[Textual ''rc'', Numeric 7 ''7'', Textual ''a'']"
      "[Textual ''rc'', Numeric 7 ''07'', Textual ''b'']"]
  by (simp add: eval_nat_numeral)

text \<open>
  \<^bold>\<open>C6\<close>. When the parts of two pre-release tails tie at every position up to the length of
  the shorter sequence, the comparison is decided by the lengths: the strictly shorter sequence
  is the lesser one, and with equal lengths neither is less than the other. This carries over
  to two versions with the same triple. In particular
  \<^verbatim>\<open>Version("1.0.0-alpha") < Version("1.0.0-alpha.1")\<close>.
\<close>
theorem shorter_sequence_is_lesser:
  "((\<forall>j < min (length ps) (length qs).
        compare_single_pre_release_part (ps ! j) (qs ! j) = None) \<longrightarrow>
      compare_pre_release_parts ps qs = (length ps < length qs)
      \<and> compare_pre_release_parts qs ps = (length qs < length ps)
      \<and> (major a = major b \<and> minor a = minor b \<and> patch a = patch b
           \<and> pre_release_parts a = Some ps \<and> pre_release_parts b = Some qs \<longrightarrow>
           Version_lt a b = (length ps < length qs)
           \<and> Version_lt b a = (length qs < length ps)))
   \<and> lt_of ''1.0.0-alpha'' ''1.0.0-alpha.1'' = Inr True
   \<and> lt_of ''1.0.0-alpha.1'' ''1.0.0-alpha'' = Inr False"
proof -
  have ties: "compare_pre_release_parts ps qs = (length ps < length qs)"
    if "\<forall>j < min (length ps) (length qs).
          compare_single_pre_release_part (ps ! j) (qs ! j) = None"
    for ps qs
  proof -
    let ?m = "min (length ps) (length qs)"
    have "parts_loop 0 ps qs = parts_loop ?m ps qs"
      using that by (intro parts_loop_skip_ties) simp_all
    also have "\<dots> = (length ps < length qs)"
      by (subst parts_loop.simps) (auto simp: min_def max_def)
    finally show ?thesis by (simp add: compare_pre_release_parts_def)
  qed
  have flip: "\<forall>j < min (length qs) (length ps).
          compare_single_pre_release_part (qs ! j) (ps ! j) = None"
    if "\<forall>j < min (length ps) (length qs).
          compare_single_pre_release_part (ps ! j) (qs ! j) = None"
    for ps qs
    using that by (simp add: single_flip_None)
  have c: "lt_of ''1.0.0-alpha'' ''1.0.0-alpha.1'' = Inr True" by code_simp
  have d: "lt_of ''1.0.0-alpha.1'' ''1.0.0-alpha'' = Inr False" by code_simp
  show ?thesis
    using ties [of ps qs] ties [OF flip, of ps qs] c d
    by (simp add: Version_lt_same_triple compare_pre_release_both)
qed

text \<open>C6 for a sequence of one part against a sequence of two parts that ties with it.\<close>
theorem shorter_sequence_is_lesser_witness:
  "compare_pre_release_parts [Numeric 1 ''1''] [Numeric 1 ''01'', Textual ''x'']
   \<and> \<not> compare_pre_release_parts [Numeric 1 ''01'', Textual ''x''] [Numeric 1 ''1'']"
  using shorter_sequence_is_lesser [of "[Numeric 1 ''1'']" "[Numeric 1 ''01'', Textual ''x'']"]
  by simp

text \<open>
  \<^bold>\<open>C7\<close>, at an input where the code departs from it. The numeric core of \<^verbatim>\<open>1.0.0-0...0\<close> (4301
  zeros) is \<^verbatim>\<open>1.0.0\<close> and the core parser reads it, yet the constructor fails: the pre-release
  parser calls \<^verbatim>\<open>int()\<close> on the run of 4301 digits outside any \<^verbatim>\<open>try\<close>, and the \<^verbatim>\<open>ValueError\<close> of
  \<^verbatim>\<open>int()\<close> leaves the constructor. It is not the error \<^verbatim>\<open>Invalid version format\<close>.
\<close>
theorem pre_release_parser_raises:
  "split_version (''1.0.0-'' @ replicate 4301 CHR ''0'') =
     (''1.0.0'', Some (replicate 4301 CHR ''0''))
   \<and> parse_main_version ''1.0.0'' = Inr (1, 0, 0)
   \<and> parse_pre_release_parts (Some (replicate 4301 CHR ''0'')) =
       Inl (IntValueError (replicate 4301 CHR ''0''))
   \<and> Version_init (''1.0.0-'' @ replicate 4301 CHR ''0'') =
       Inl (IntValueError (replicate 4301 CHR ''0''))"
proof -
  have zero: "is_digit CHR ''0''" by (simp add: is_digit_def)
  note ds = digits_replicate [OF zero, of 4301]
  have ne: "replicate 4301 CHR ''0'' \<noteq> []" by simp
  have core: "parse_main_version ''1.0.0'' = Inr (1, 0, 0)" by code_simp
  have w: "CHR ''-'' \<notin> set ''1.0.0''" "lstrip ''v'' ''1.0.0'' = ''1.0.0''"
    by (simp_all add: lstrip_def)
  have 1: "split_version (''1.0.0-'' @ replicate 4301 CHR ''0'') =
     (''1.0.0'', Some (replicate 4301 CHR ''0''))"
    using split_version_dash [OF w, of "replicate 4301 CHR ''0''"] by simp
  have "split_str CHR ''.'' (replicate 4301 CHR ''0'') = [replicate 4301 CHR ''0'']"
    using digits_no_dot [OF ds] by (rule split_str_no_sep)
  then have 2: "parse_pre_release_parts (Some (replicate 4301 CHR ''0'')) =
       Inl (IntValueError (replicate 4301 CHR ''0''))"
    by (simp add: parse_pre_release_parts_def parse_part_run [OF ne ds] int_max_str_digits_def)
  have 3: "Version_init (''1.0.0-'' @ replicate 4301 CHR ''0'') =
       Inl (IntValueError (replicate 4301 CHR ''0''))"
    using Version_init_digit_tail [OF core w ne ds]
    by (simp add: int_max_str_digits_def)
  from 1 core 2 3 show ?thesis by (intro conjI)
qed

text \<open>The failure at the tail of 4301 zeros is not the error of the core parser.\<close>
theorem pre_release_parser_raises_witness:
  "Version_init (''1.0.0-'' @ replicate 4301 CHR ''0'') \<noteq>
     Inl (ValueError ''Invalid version format: 1.0.0'')"
  using pre_release_parser_raises by simp

text \<open>
  \<^bold>\<open>C8\<close>. Missing components of the numeric core default to 0: the list of the dot-separated
  entries is padded on the right with \<^verbatim>\<open>"0"\<close> up to length 3. So the core parser gives \<open>(a, 0, 0)\<close>
  for every core of one entry that \<^verbatim>\<open>int()\<close> reads as \<open>a\<close>, as it does with \<^verbatim>\<open>.0\<close> and \<^verbatim>\<open>.0.0\<close>
  written out, and \<open>(a, b, 0)\<close> for every core of two entries read as \<open>a\<close> and \<open>b\<close>; every constructed
  version whose core has one entry has minor and patch 0, and patch 0 when it has two. In
  particular \<^verbatim>\<open>Version("1")\<close>, \<^verbatim>\<open>Version("1.0")\<close> and \<^verbatim>\<open>Version("1.0.0")\<close> all have the triple
  (1, 0, 0) and no pre-release tail, and they are pairwise equal.
\<close>
theorem default_padding:
  "pad_parts xs = xs @ replicate (3 - length xs) ''0''
   \<and> (CHR ''.'' \<notin> set x \<and> py_int x = Some a \<longrightarrow>
        parse_main_version x = Inr (a, 0, 0)
        \<and> parse_main_version (x @ ''.0'') = Inr (a, 0, 0)
        \<and> parse_main_version (x @ ''.0.0'') = Inr (a, 0, 0))
   \<and> (CHR ''.'' \<notin> set x \<and> CHR ''.'' \<notin> set y \<and> py_int x = Some a \<and> py_int y = Some b \<longrightarrow>
        parse_main_version (x @ ''.'' @ y) = Inr (a, b, 0)
        \<and> parse_main_version (x @ ''.'' @ y @ ''.0'') = Inr (a, b, 0))
   \<and> (Version_init s = Inr v \<and> length (split_str CHR ''.'' (fst (split_version s))) = 1 \<longrightarrow>
        minor v = 0 \<and> patch v = 0)
   \<and> (Version_init s = Inr v \<and> length (split_str CHR ''.'' (fst (split_version s))) = 2 \<longrightarrow>
        patch v = 0)
   \<and> Version_init ''1'' = Inr \<lparr>version = ''1'', major = 1, minor = 0, patch = 0,
        pre_release = None, pre_release_parts = None\<rparr>
   \<and> Version_init ''1.0'' = Inr \<lparr>version = ''1.0'', major = 1, minor = 0, patch = 0,
        pre_release = None, pre_release_parts = None\<rparr>
   \<and> Version_init ''1.0.0'' = Inr \<lparr>version = ''1.0.0'', major = 1, minor = 0, patch = 0,
        pre_release = None, pre_release_parts = None\<rparr>
   \<and> eq_of ''1'' ''1.0'' = Inr True \<and> eq_of ''1'' ''1.0.0'' = Inr True
   \<and> eq_of ''1.0'' ''1.0.0'' = Inr True \<and> eq_of ''1.0'' ''1'' = Inr True
   \<and> eq_of ''1.0.0'' ''1'' = Inr True \<and> eq_of ''1.0.0'' ''1.0'' = Inr True"
proof -
  have nd: "CHR ''.'' \<notin> set ''0''" by simp
  have one: "parse_main_version x = Inr (a, 0, 0)
        \<and> parse_main_version (x @ ''.0'') = Inr (a, 0, 0)
        \<and> parse_main_version (x @ ''.0.0'') = Inr (a, 0, 0)"
    if "CHR ''.'' \<notin> set x" "py_int x = Some a"
    using that parse_main_version_one [of x] parse_main_version_two [of x "''0''"]
      parse_main_version_three [of x "''0''" "''0''"]
    by (simp add: py_int_zero)
  have two: "parse_main_version (x @ ''.'' @ y) = Inr (a, b, 0)
        \<and> parse_main_version (x @ ''.'' @ y @ ''.0'') = Inr (a, b, 0)"
    if "CHR ''.'' \<notin> set x" "CHR ''.'' \<notin> set y" "py_int x = Some a" "py_int y = Some b"
    using that parse_main_version_two [of x y] parse_main_version_three [of x y "''0''"]
    by (simp add: py_int_zero)
  have c1: "minor v = 0 \<and> patch v = 0"
    if "Version_init s = Inr v" "length (split_str CHR ''.'' (fst (split_version s))) = 1"
  proof -
    from that(2) obtain e where "split_str CHR ''.'' (fst (split_version s)) = [e]"
      by (cases "split_str CHR ''.'' (fst (split_version s))") auto
    then have "pad_parts (split_str CHR ''.'' (fst (split_version s))) = [e, ''0'', ''0'']"
      by (simp add: pad_parts_eq eval_nat_numeral)
    with Version_init_Inr(3) [OF that(1)] show ?thesis
      by (auto simp: parse_main_version_entries Let_def py_int_zero split: option.splits)
  qed
  have c2: "patch v = 0"
    if "Version_init s = Inr v" "length (split_str CHR ''.'' (fst (split_version s))) = 2"
  proof -
    from that(2) obtain e f where "split_str CHR ''.'' (fst (split_version s)) = [e, f]"
      by (cases "split_str CHR ''.'' (fst (split_version s))"; cases "tl (split_str CHR ''.'' (fst (split_version s)))") auto
    then have "pad_parts (split_str CHR ''.'' (fst (split_version s))) = [e, f, ''0'']"
      by (simp add: pad_parts_eq eval_nat_numeral)
    with Version_init_Inr(3) [OF that(1)] show ?thesis
      by (auto simp: parse_main_version_entries Let_def py_int_zero split: option.splits)
  qed
  have e1: "Version_init ''1'' = Inr \<lparr>version = ''1'', major = 1, minor = 0, patch = 0,
        pre_release = None, pre_release_parts = None\<rparr>" by code_simp
  have e2: "Version_init ''1.0'' = Inr \<lparr>version = ''1.0'', major = 1, minor = 0, patch = 0,
        pre_release = None, pre_release_parts = None\<rparr>" by code_simp
  have e3: "Version_init ''1.0.0'' = Inr \<lparr>version = ''1.0.0'', major = 1, minor = 0, patch = 0,
        pre_release = None, pre_release_parts = None\<rparr>" by code_simp
  have q1: "eq_of ''1'' ''1.0'' = Inr True" by code_simp
  have q2: "eq_of ''1'' ''1.0.0'' = Inr True" by code_simp
  have q3: "eq_of ''1.0'' ''1.0.0'' = Inr True" by code_simp
  have q4: "eq_of ''1.0'' ''1'' = Inr True" by code_simp
  have q5: "eq_of ''1.0.0'' ''1'' = Inr True" by code_simp
  have q6: "eq_of ''1.0.0'' ''1.0'' = Inr True" by code_simp
  from one two c1 c2 e1 e2 e3 q1 q2 q3 q4 q5 q6 pad_parts_eq [of xs] show ?thesis
    by blast
qed

text \<open>C8 for the cores \<^verbatim>\<open>42\<close> and \<^verbatim>\<open>4.07\<close> and for the constructed version of \<^verbatim>\<open>v5-rc\<close>.\<close>
theorem default_padding_witness:
  "parse_main_version ''42'' = Inr (42, 0, 0)
   \<and> parse_main_version ''42.0.0'' = Inr (42, 0, 0)
   \<and> parse_main_version ''4.07'' = Inr (4, 7, 0)
   \<and> minor \<lparr>version = ''v5-rc'', major = 5, minor = 0, patch = 0,
        pre_release = Some ''rc'', pre_release_parts = Some [Textual ''rc'']\<rparr> = 0"
proof -
  have a: "py_int ''42'' = Some 42" by code_simp
  have b: "py_int ''4'' = Some 4" by code_simp
  have c: "py_int ''07'' = Some 7" by code_simp
  have d: "Version_init ''v5-rc'' = Inr \<lparr>version = ''v5-rc'', major = 5, minor = 0, patch = 0,
        pre_release = Some ''rc'', pre_release_parts = Some [Textual ''rc'']\<rparr>" by code_simp
  have e: "length (split_str CHR ''.'' (fst (split_version ''v5-rc''))) = 1" by code_simp
  from default_padding [of _ "''42''" 42 _ _ "''v5-rc''" _] a d e
    default_padding [of _ "''4''" 4 "''07''" 7] b c
  show ?thesis by simp
qed

text \<open>
  \<^bold>\<open>C9\<close>, amended. Before splitting, the constructor strips every leading \<^verbatim>\<open>v\<close> of the raw
  string, however many there are (\<^verbatim>\<open>lstrip('v')\<close>): any number of \<^verbatim>\<open>v\<close> characters in front of
  an input changes neither the numeric core nor the pre-release tail, and the constructor
  fails or succeeds alike, with the same fields but the raw text. So
  \<^verbatim>\<open>Version("v1.0.0") == Version("1.0.0")\<close> and \<^verbatim>\<open>Version("vv1.0.0") == Version("1.0.0")\<close>.
\<close>
theorem leading_v_stripped:
  "split_version (replicate n CHR ''v'' @ s) = split_version s
   \<and> Version_init (replicate n CHR ''v'' @ s) =
       (case Version_init s of
          Inl e \<Rightarrow> Inl e
        | Inr a \<Rightarrow> Inr (a\<lparr>version := replicate n CHR ''v'' @ s\<rparr>))
   \<and> eq_of ''v1.0.0'' ''1.0.0'' = Inr True
   \<and> eq_of ''vv1.0.0'' ''1.0.0'' = Inr True"
proof -
  have a: "eq_of ''v1.0.0'' ''1.0.0'' = Inr True" by code_simp
  have b: "eq_of ''vv1.0.0'' ''1.0.0'' = Inr True" by code_simp
  have c: "Version_init (replicate n CHR ''v'' @ s) =
       (case Version_init s of
          Inl e \<Rightarrow> Inl e
        | Inr a \<Rightarrow> Inr (a\<lparr>version := replicate n CHR ''v'' @ s\<rparr>))"
    by (simp add: Version_init_cases split_version_leading_v split: sum.splits)
  from a b c show ?thesis by (simp only: split_version_leading_v simp_thms)
qed

text \<open>
  C9 as stated fails: \<^verbatim>\<open>Version("vv1.0.0")\<close> does not raise, it is the version 1.0.0.
\<close>
theorem single_v_strip_counterexample:
  "Version_init ''vv1.0.0'' =
     Inr \<lparr>version = ''vv1.0.0'', major = 1, minor = 0, patch = 0,
          pre_release = None, pre_release_parts = None\<rparr>"
  by code_simp

text \<open>The amended C9 for three leading \<^verbatim>\<open>v\<close> characters before \<^verbatim>\<open>1.2.3-rc\<close>.\<close>
theorem leading_v_stripped_witness:
  "split_version ''vvv1.2.3-rc'' = (''1.2.3'', Some ''rc'')"
proof -
  have "split_version ''1.2.3-rc'' = (''1.2.3'', Some ''rc'')" by code_simp
  then show ?thesis using leading_v_stripped [of 3 "''1.2.3-rc''"]
    by (simp add: eval_nat_numeral)
qed

text \<open>
  \<^bold>\<open>C10\<close>, amended. Take an input without a dash that, after its leading \<^verbatim>\<open>v\<close> characters,
  consists of three dot-separated groups of digits \<^verbatim>\<open>0-9\<close>, one of the letters \<^verbatim>\<open>a-z\<close>, \<^verbatim>\<open>A-Z\<close>, and then
  any characters none of which is a line feed. The splitter takes the three groups as the
  numeric core and everything from the letter onward as the pre-release tail. With only two
  groups or one group of digits before the letter the rule does not apply, and the whole text
  is the numeric core. Consequently \<^verbatim>\<open>Version("0.3.0b") < Version("1.2.42")\<close> and
  \<^verbatim>\<open>Version("1.0.0alpha") < Version("1.0.0-beta")\<close>.
\<close>
theorem letter_suffix_split:
  "(x \<noteq> [] \<and> list_all is_digit x \<and> y \<noteq> [] \<and> list_all is_digit y
      \<and> z \<noteq> [] \<and> list_all is_digit z \<and> is_alpha l
      \<and> CHR ''-'' \<notin> set t \<and> CHR 0x0A \<notin> set t \<longrightarrow>
        split_version (replicate n CHR ''v'' @ x @ ''.'' @ y @ ''.'' @ z @ l # t) =
          (x @ ''.'' @ y @ ''.'' @ z, Some (l # t))
      \<and> split_version (replicate n CHR ''v'' @ x @ ''.'' @ y @ l # t) =
          (x @ ''.'' @ y @ l # t, None)
      \<and> split_version (replicate n CHR ''v'' @ x @ l # t) = (x @ l # t, None))
   \<and> lt_of ''0.3.0b'' ''1.2.42'' = Inr True
   \<and> lt_of ''1.0.0alpha'' ''1.0.0-beta'' = Inr True"
proof -
  have main: "split_version (replicate n CHR ''v'' @ x @ ''.'' @ y @ ''.'' @ z @ l # t) =
          (x @ ''.'' @ y @ ''.'' @ z, Some (l # t))
      \<and> split_version (replicate n CHR ''v'' @ x @ ''.'' @ y @ l # t) =
          (x @ ''.'' @ y @ l # t, None)
      \<and> split_version (replicate n CHR ''v'' @ x @ l # t) = (x @ l # t, None)"
    if x: "x \<noteq> []" "list_all is_digit x" and y: "y \<noteq> []" "list_all is_digit y"
      and z: "z \<noteq> []" "list_all is_digit z" and l: "is_alpha l"
      and t: "CHR ''-'' \<notin> set t" "CHR 0x0A \<notin> set t"
  proof -
    note nodash = digits_no_dash [OF x(2)] digits_no_dash [OF y(2)] digits_no_dash [OF z(2)]
      alpha_not_special(3) [OF l] t(1)
    have tk: "takeWhile (\<lambda>c. c \<noteq> CHR 0x0A) t = t" "dropWhile (\<lambda>c. c \<noteq> CHR 0x0A) t = []"
      using t(2) by (auto simp: takeWhile_eq_all_conv)
    have 1: "split_version (x @ ''.'' @ y @ ''.'' @ z @ l # t) =
          (x @ ''.'' @ y @ ''.'' @ z, Some (l # t))"
      using nodash match_three_groups [OF x y z l, of t] lstrip_v_digits [OF x] tk
      by (subst split_version_no_dash) simp_all
    have 3: "split_version (x @ ''.'' @ y @ l # t) = (x @ ''.'' @ y @ l # t, None)"
      using nodash match_two_groups [OF x y l, of t] lstrip_v_digits [OF x]
      by (subst split_version_no_dash) simp_all
    have 4: "split_version (x @ l # t) = (x @ l # t, None)"
      using nodash match_one_group [OF x l, of t] lstrip_v_digits [OF x]
      by (subst split_version_no_dash) simp_all
    from 1 3 4 show ?thesis by (simp only: split_version_leading_v simp_thms)
  qed
  have a: "lt_of ''0.3.0b'' ''1.2.42'' = Inr True" by code_simp
  have b: "lt_of ''1.0.0alpha'' ''1.0.0-beta'' = Inr True" by code_simp
  from main a b show ?thesis by blast
qed

text \<open>
  C10 as stated fails at two inputs without a dash that are three groups of digits followed
  by a letter. The letter of code point 0xE9 (e with an acute accent) is outside the class
  \<^verbatim>\<open>[a-zA-Z]\<close> of the pattern, and in \<^verbatim>\<open>"1.0.0a\nb"\<close> the \<^verbatim>\<open>.\<close> of the pattern stops at the line feed.
  Neither input is split: the whole text becomes the numeric core and the constructor raises.
\<close>
theorem letter_suffix_split_counterexample:
  "split_version (''1.0.0'' @ [CHR 0xE9]) = (''1.0.0'' @ [CHR 0xE9], None)
   \<and> Version_init (''1.0.0'' @ [CHR 0xE9]) =
       Inl (ValueError (''Invalid version format: 1.0.0'' @ [CHR 0xE9]))
   \<and> split_version (''1.0.0a'' @ [CHR 0x0A] @ ''b'') = (''1.0.0a'' @ [CHR 0x0A] @ ''b'', None)
   \<and> Version_init (''1.0.0a'' @ [CHR 0x0A] @ ''b'') =
       Inl (ValueError (''Invalid version format: 1.0.0a'' @ [CHR 0x0A] @ ''b''))"
  by code_simp

text \<open>The amended C10 for \<^verbatim>\<open>v2.0.0b1\<close>, \<^verbatim>\<open>v2.0b1\<close> and \<^verbatim>\<open>v2b1\<close>.\<close>
theorem letter_suffix_split_witness:
  "split_version ''v2.0.0b1'' = (''2.0.0'', Some ''b1'')
   \<and> split_version ''v2.0b1'' = (''2.0b1'', None)
   \<and> split_version ''v2b1'' = (''2b1'', None)"
  using letter_suffix_split [of "''2''" "''0''" "''0''" "CHR ''b''" "''1''" 1]
  by (simp add: is_digit_def is_alpha_def)

end
